theory Spec2Isabelle
  imports Complex_Main
begin

section \<open>The useWebSocket hook of stellar-insights\<close>

text \<open>
  A shallow embedding of \<^verbatim>\<open>frontend/src/hooks/useWebSocket.ts\<close>. The hook keeps four
  React state cells (\<^verbatim>\<open>isConnected\<close>, \<^verbatim>\<open>connectionId\<close>, \<^verbatim>\<open>lastMessage\<close>,
  \<^verbatim>\<open>connectionState\<close>) and six refs; its callbacks mutate them and talk to a transport
  object, to the timer table of the JavaScript runtime and to the callbacks of the caller.
  All of that is one record here, passed through every operation and returned updated.

  Two conventions of the embedding:
  \<^item> A state setter \<^verbatim>\<open>setX(v)\<close> is the assignment of \<open>v\<close> to the cell. The hook never reads
    \<^verbatim>\<open>isConnected\<close>, \<^verbatim>\<open>connectionId\<close> or \<^verbatim>\<open>lastMessage\<close>; it reads \<^verbatim>\<open>connectionState\<close>
    only inside the interval callback of \<^verbatim>\<open>connect\<close>, where the variable is the value
    captured by the closure of the render that built \<^verbatim>\<open>connect\<close>, not the live cell. That
    captured value is the parameter \<open>cap\<close> of \<open>connect\<close>, stored with the interval.
  \<^item> JavaScript numbers that count (attempts, handles) are \<open>nat\<close>; the configured bound
    on the attempts and the delay in milliseconds are \<open>real\<close>, and \<^verbatim>\<open>Math.random()\<close> is a parameter \<open>rnd\<close> of the operation
    that calls it (the rounding of the double addition is not modelled).
\<close>

subsection \<open>Messages and options\<close>

datatype ConnectionState = DISCONNECTED | CONNECTING | CONNECTED | RECONNECTING

type_synonym WsMessageType = string

text \<open>
  Modelled from the spec: the type \<^verbatim>\<open>WsMessage\<close> of \<^verbatim>\<open>@/lib/websocket\<close>, which is not among
  the sources. It is a union tagged by its \<^verbatim>\<open>type\<close> field; the acknowledgement carries a
  connection identifier, an error carries a text, and the rest is opaque payload. The hook
  reads three fields: \<^verbatim>\<open>type\<close>, \<^verbatim>\<open>connection_id\<close> (of a \<^verbatim>\<open>'connected'\<close> message) and
  \<^verbatim>\<open>message\<close> (of an \<^verbatim>\<open>'error'\<close> message).
\<close>

record WsMessage =
  msg_type :: WsMessageType
  connection_id :: string
  message :: string
  payload :: string

text \<open>
  \<^verbatim>\<open>UseWebSocketOptions\<close>. An optional callback is a flag that says whether the caller
  supplied it; what a supplied callback does is opaque, only its invocation is recorded
  (\<open>calls\<close> below), and it is taken not to call back into the hook. Of the inherited
  \<^verbatim>\<open>WebSocketConfig\<close> (declared in \<^verbatim>\<open>@/lib/websocket\<close>) the hook reads
  \<^verbatim>\<open>maxReconnectAttempts\<close> only: any number, with no rounding and no check of its sign.
\<close>

record Options =
  autoConnect :: "bool option"
  messageTypes :: "WsMessageType list option"
  onMessage :: bool
  onConnect :: bool
  onDisconnect :: bool
  onError :: bool
  cfg_maxReconnectAttempts :: "real option"

datatype Callback = CbMessage WsMessage | CbConnect | CbDisconnect | CbError string

subsection \<open>The transport, the timer table and the state of the hook\<close>

datatype Selector = OnType WsMessageType | OnAny

text \<open>The two closures that \<^verbatim>\<open>connect\<close> registers on the transport.\<close>

datatype Handler = H_handleMessage | H_errorListener

text \<open>
  Modelled from the spec: the transport \<^verbatim>\<open>getWebSocketInstance(wsConfig)\<close> of
  \<^verbatim>\<open>@/lib/websocket\<close>, which is not among the sources. Its contract is
  \<^verbatim>\<open>connect()\<close>, \<^verbatim>\<open>disconnect()\<close> (closes if open, idempotent), \<^verbatim>\<open>isConnected()\<close>,
  \<^verbatim>\<open>getConnectionId()\<close>, \<^verbatim>\<open>on(type, handler)\<close> and \<^verbatim>\<open>onAny(handler)\<close>, both returning a
  disposer, and \<^verbatim>\<open>ping()\<close>. The record holds what these report, the listeners this hook
  registered (each under a handle that its disposer removes), and counters of the calls
  received.
\<close>

record Transport =
  t_connected :: bool
  t_connectionId :: "string option"
  t_listeners :: "(nat \<times> Selector \<times> Handler) list"
  t_nextListener :: nat
  t_connectCalls :: nat
  t_disconnectCalls :: nat
  t_pings :: nat

text \<open>
  An element of \<^verbatim>\<open>unsubscribersRef.current\<close>: the disposer of a listener, or the closure
  that clears the interval of the connection check.
\<close>

datatype Disposer = Unsub nat | ClearInterval nat

text \<open>
  The two \<^verbatim>\<open>setTimeout\<close> callbacks of the hook: the one of \<^verbatim>\<open>scheduleReconnect\<close>
  (clears the in-flight flag, then connects) and the one of \<^verbatim>\<open>reconnect\<close> (connects).
\<close>

datatype TimeoutKind = RetryConnect | SettleConnect

record Hook =
  isConnected :: bool
  connectionId :: "string option"
  lastMessage :: "WsMessage option"
  connectionState :: ConnectionState
  ws :: Transport
  unsubscribers :: "Disposer list"
  isConnecting :: bool
  reconnectTimeout :: "nat option"
  reconnectAttempts :: nat
  shouldReconnect :: bool
  timeouts :: "(nat \<times> TimeoutKind \<times> real) list"
  intervals :: "(nat \<times> ConnectionState) list"
  nextHandle :: nat
  calls :: "Callback list"

text \<open>The state of a freshly mounted hook, before its effect has run.\<close>

definition transport0 :: Transport where
  "transport0 = \<lparr>t_connected = False, t_connectionId = None, t_listeners = [],
     t_nextListener = 0, t_connectCalls = 0, t_disconnectCalls = 0, t_pings = 0\<rparr>"

definition init :: Hook where
  "init = \<lparr>isConnected = False, connectionId = None, lastMessage = None,
     connectionState = DISCONNECTED, ws = transport0, unsubscribers = [],
     isConnecting = False, reconnectTimeout = None, reconnectAttempts = 0,
     shouldReconnect = True, timeouts = [], intervals = [], nextHandle = 0, calls = []\<rparr>"

text \<open>
  \<^verbatim>\<open>const maxReconnectAttempts = wsConfig.maxReconnectAttempts || 5\<close>: absent and 0 give 5
  (so does \<^verbatim>\<open>NaN\<close>, which is the absent case here); every other number is taken as it is,
  negative and fractional ones included. An infinite setting is not modelled.
\<close>

definition maxReconnectAttempts :: "Options \<Rightarrow> real" where
  "maxReconnectAttempts cfg =
     (case cfg_maxReconnectAttempts cfg of
        None \<Rightarrow> 5
      | Some n \<Rightarrow> if n = 0 then 5 else n)"

text \<open>\<^verbatim>\<open>cb?.(args)\<close>: the call happens when the callback was supplied.\<close>

definition invoke :: "bool \<Rightarrow> Callback \<Rightarrow> Hook \<Rightarrow> Hook" where
  "invoke supplied c s = (if supplied then s\<lparr>calls := calls s @ [c]\<rparr> else s)"

subsection \<open>Timers and subscriptions\<close>

definition clearTimeout :: "nat \<Rightarrow> Hook \<Rightarrow> Hook" where
  "clearTimeout h s = s\<lparr>timeouts := filter (\<lambda>t. fst t \<noteq> h) (timeouts s)\<rparr>"

text \<open>\<^verbatim>\<open>setTimeout(cb, delay)\<close> arms a timer under a fresh handle and returns the handle.\<close>

definition setTimeout :: "TimeoutKind \<Rightarrow> real \<Rightarrow> Hook \<Rightarrow> nat \<times> Hook" where
  "setTimeout k d s =
     (nextHandle s,
      s\<lparr>timeouts := timeouts s @ [(nextHandle s, k, d)], nextHandle := nextHandle s + 1\<rparr>)"

definition setInterval :: "ConnectionState \<Rightarrow> Hook \<Rightarrow> nat \<times> Hook" where
  "setInterval cap s =
     (nextHandle s,
      s\<lparr>intervals := intervals s @ [(nextHandle s, cap)], nextHandle := nextHandle s + 1\<rparr>)"

fun runDisposer :: "Hook \<Rightarrow> Disposer \<Rightarrow> Hook" where
  "runDisposer s (Unsub i) =
     s\<lparr>ws := (ws s)\<lparr>t_listeners := filter (\<lambda>l. fst l \<noteq> i) (t_listeners (ws s))\<rparr>\<rparr>"
| "runDisposer s (ClearInterval h) =
     s\<lparr>intervals := filter (\<lambda>t. fst t \<noteq> h) (intervals s)\<rparr>"

text \<open>
  \<^verbatim>\<open>unsubscribersRef.current.forEach((unsub) => unsub()); unsubscribersRef.current = []\<close>
\<close>

definition disposeAll :: "Hook \<Rightarrow> Hook" where
  "disposeAll s = (foldl runDisposer s (unsubscribers s))\<lparr>unsubscribers := []\<rparr>"

text \<open>
  \<^verbatim>\<open>const unsub = ws.on(type, h); unsubscribersRef.current.push(unsub)\<close>, and the same with
  \<^verbatim>\<open>ws.onAny(h)\<close>.
\<close>

definition subscribe :: "Hook \<Rightarrow> Selector \<times> Handler \<Rightarrow> Hook" where
  "subscribe s l =
     (let i = t_nextListener (ws s)
      in s\<lparr>ws := (ws s)\<lparr>t_listeners := t_listeners (ws s) @ [(i, l)],
                         t_nextListener := i + 1\<rparr>,
           unsubscribers := unsubscribers s @ [Unsub i]\<rparr>)"

subsection \<open>The operations of the hook\<close>

definition handleMessage :: "Options \<Rightarrow> WsMessage \<Rightarrow> Hook \<Rightarrow> Hook" where
  "handleMessage cfg m s =
     (let s1 = s\<lparr>lastMessage := Some m\<rparr>;
          s2 = (if msg_type m = ''connected''
                then invoke (onConnect cfg) CbConnect
                       (s1\<lparr>isConnected := True,
                           connectionId := Some (connection_id m),
                           connectionState := CONNECTED,
                           isConnecting := False,
                           reconnectAttempts := 0\<rparr>)
                else s1);
          s3 = (if msg_type m = ''error''
                then invoke (onError cfg) (CbError (message m)) s2
                else s2)
      in invoke (onMessage cfg) (CbMessage m) s3)"

text \<open>
  \<^verbatim>\<open>if (reconnectTimeoutRef.current) { clearTimeout(...); reconnectTimeoutRef.current = null }\<close>,
  the block that opens \<^verbatim>\<open>scheduleReconnect\<close> and stands in \<^verbatim>\<open>disconnect\<close>. A handle is an
  object, hence truthy.
\<close>

definition cancelReconnectTimeout :: "Hook \<Rightarrow> Hook" where
  "cancelReconnectTimeout s =
     (case reconnectTimeout s of
        Some h \<Rightarrow> (clearTimeout h s)\<lparr>reconnectTimeout := None\<rparr>
      | None \<Rightarrow> s)"

definition scheduleReconnect :: "Options \<Rightarrow> real \<Rightarrow> Hook \<Rightarrow> Hook" where
  "scheduleReconnect cfg rnd s =
     (let s1 = cancelReconnectTimeout s
      in if \<not> shouldReconnect s1 \<or> real (reconnectAttempts s1) \<ge> maxReconnectAttempts cfg
         then s1\<lparr>connectionState := DISCONNECTED, isConnecting := False\<rparr>
         else
           let s2 = s1\<lparr>reconnectAttempts := reconnectAttempts s1 + 1,
                       connectionState := RECONNECTING\<rparr>;
               baseDelay = 1000;
               exponentialDelay = baseDelay * 2 ^ (reconnectAttempts s2 - 1);
               jitter = rnd * 1000;
               delay = min (exponentialDelay + jitter) 30000;
               (h, s3) = setTimeout RetryConnect delay s2
           in s3\<lparr>reconnectTimeout := Some h\<rparr>)"

text \<open>
  The callback of \<^verbatim>\<open>setInterval(..., 1000)\<close> in \<^verbatim>\<open>connect\<close>; \<open>cap\<close> is the
  \<^verbatim>\<open>connectionState\<close> its closure captured.
\<close>

definition checkInterval :: "Options \<Rightarrow> ConnectionState \<Rightarrow> real \<Rightarrow> Hook \<Rightarrow> Hook" where
  "checkInterval cfg cap rnd s =
     (let connected = t_connected (ws s);
          s1 = s\<lparr>isConnected := connected\<rparr>
      in if connected
         then
           let s2 = s1\<lparr>connectionId := t_connectionId (ws s1)\<rparr>
           in if cap \<noteq> CONNECTED
              then s2\<lparr>connectionState := CONNECTED, isConnecting := False\<rparr>
              else s2
         else
           let s2 = s1\<lparr>connectionId := None\<rparr>
           in if cap = CONNECTED \<or> cap = CONNECTING
              then if shouldReconnect s2
                      \<and> real (reconnectAttempts s2) < maxReconnectAttempts cfg
                   then scheduleReconnect cfg rnd s2
                   else s2\<lparr>connectionState := DISCONNECTED, isConnecting := False\<rparr>
              else s2)"

text \<open>
  \<^verbatim>\<open>try { ws.connect() } catch (error) { ... }\<close>; whether the transport throws is the
  parameter \<open>throws\<close>. Opening is asynchronous: the call itself does not change what
  \<^verbatim>\<open>isConnected()\<close> reports.
\<close>

definition tryConnect :: "bool \<Rightarrow> Hook \<Rightarrow> Hook" where
  "tryConnect throws s =
     (let s1 = s\<lparr>ws := (ws s)\<lparr>t_connectCalls := t_connectCalls (ws s) + 1\<rparr>\<rparr>
      in if throws
         then s1\<lparr>isConnecting := False, connectionState := DISCONNECTED\<rparr>
         else s1)"

definition connect :: "Options \<Rightarrow> ConnectionState \<Rightarrow> bool \<Rightarrow> Hook \<Rightarrow> Hook" where
  "connect cfg cap throws s =
     (if isConnecting s then s
      else if t_connected (ws s) then s
      else
        let s1 = s\<lparr>isConnecting := True, connectionState := CONNECTING\<rparr>;
            s2 = disposeAll s1;
            s3 = (case messageTypes cfg of
                    Some ts \<Rightarrow>
                      if ts \<noteq> []
                      then foldl (\<lambda>s' t. subscribe s' (OnType t, H_handleMessage)) s2 ts
                      else subscribe s2 (OnAny, H_handleMessage)
                  | None \<Rightarrow> subscribe s2 (OnAny, H_handleMessage));
            s4 = subscribe s3 (OnType ''error'', H_errorListener);
            s5 = tryConnect throws s4;
            (h, s6) = setInterval cap s5
        in s6\<lparr>unsubscribers := unsubscribers s6 @ [ClearInterval h]\<rparr>)"

definition disconnect :: "Options \<Rightarrow> Hook \<Rightarrow> Hook" where
  "disconnect cfg s =
     (let s1 = s\<lparr>shouldReconnect := False, isConnecting := False\<rparr>;
          s2 = cancelReconnectTimeout s1;
          s3 = disposeAll s2;
          s4 = s3\<lparr>ws := (ws s3)\<lparr>t_connected := False, t_connectionId := None,
                     t_disconnectCalls := t_disconnectCalls (ws s3) + 1\<rparr>\<rparr>;
          s5 = s4\<lparr>isConnected := False, connectionId := None,
                  connectionState := DISCONNECTED, reconnectAttempts := 0\<rparr>
      in invoke (onDisconnect cfg) CbDisconnect s5)"

text \<open>The public \<^verbatim>\<open>connect\<close> of the hook.\<close>

definition reconnect :: "Options \<Rightarrow> Hook \<Rightarrow> Hook" where
  "reconnect cfg s =
     (let s1 = disconnect cfg s;
          s2 = s1\<lparr>reconnectAttempts := 0, shouldReconnect := True\<rparr>
      in snd (setTimeout SettleConnect 100 s2))"

definition ping :: "Hook \<Rightarrow> Hook" where
  "ping s = s\<lparr>ws := (ws s)\<lparr>t_pings := t_pings (ws s) + 1\<rparr>\<rparr>"

text \<open>The effect of the hook and its cleanup.\<close>

definition mount :: "Options \<Rightarrow> ConnectionState \<Rightarrow> bool \<Rightarrow> Hook \<Rightarrow> Hook" where
  "mount cfg cap throws s =
     (if autoConnect cfg \<noteq> Some False
      then connect cfg cap throws (s\<lparr>shouldReconnect := True\<rparr>)
      else s)"

definition cleanup :: "Options \<Rightarrow> Hook \<Rightarrow> Hook" where
  "cleanup cfg s = disconnect cfg (s\<lparr>shouldReconnect := False\<rparr>)"

subsection \<open>What the environment does\<close>

fun runHandler :: "Options \<Rightarrow> Handler \<Rightarrow> WsMessage \<Rightarrow> Hook \<Rightarrow> Hook" where
  "runHandler cfg H_handleMessage m s = handleMessage cfg m s"
| "runHandler cfg H_errorListener m s =
     s\<lparr>isConnecting := False, connectionState := DISCONNECTED\<rparr>"

fun matches :: "Selector \<Rightarrow> WsMessage \<Rightarrow> bool" where
  "matches (OnType t) m = (msg_type m = t)"
| "matches OnAny m = True"

definition deliverTo :: "Options \<Rightarrow> WsMessage \<Rightarrow> Hook \<Rightarrow> nat \<times> Selector \<times> Handler \<Rightarrow> Hook" where
  "deliverTo cfg m s l =
     (if matches (fst (snd l)) m then runHandler cfg (snd (snd l)) m s else s)"

text \<open>
  Modelled from the spec: the transport hands an inbound message to the listeners
  registered for its type and to the wildcard listeners, in registration order.
\<close>

definition emit :: "Options \<Rightarrow> WsMessage \<Rightarrow> Hook \<Rightarrow> Hook" where
  "emit cfg m s = foldl (deliverTo cfg m) s (t_listeners (ws s))"

text \<open>A pending timer fires: it leaves the table and its callback runs.\<close>

definition fire :: "Options \<Rightarrow> nat \<Rightarrow> ConnectionState \<Rightarrow> bool \<Rightarrow> Hook \<Rightarrow> Hook" where
  "fire cfg h cap throws s =
     (case map_of (timeouts s) h of
        None \<Rightarrow> s
      | Some (k, d) \<Rightarrow>
          let s1 = clearTimeout h s
          in (case k of
                RetryConnect \<Rightarrow> connect cfg cap throws (s1\<lparr>isConnecting := False\<rparr>)
              | SettleConnect \<Rightarrow> connect cfg cap throws s1))"

definition tick :: "Options \<Rightarrow> nat \<Rightarrow> real \<Rightarrow> Hook \<Rightarrow> Hook" where
  "tick cfg h rnd s =
     (case map_of (intervals s) h of
        None \<Rightarrow> s
      | Some cap \<Rightarrow> checkInterval cfg cap rnd s)"

datatype Event =
    Mount ConnectionState bool
  | Cleanup
  | CallConnect
  | CallDisconnect
  | CallPing
  | Inbound WsMessage
  | Tick nat real
  | Fire nat ConnectionState bool
  | TransportOpened string
  | TransportClosed

text \<open>
  The events: the effect of the hook runs (\<open>Mount\<close>) or is cleaned up (\<open>Cleanup\<close>); the
  caller invokes the returned \<^verbatim>\<open>connect\<close>, which is \<^verbatim>\<open>reconnect\<close> (\<open>CallConnect\<close>), the
  returned \<^verbatim>\<open>disconnect\<close> or \<^verbatim>\<open>ping\<close>; the transport delivers a message (\<open>Inbound\<close>); an
  interval or a timeout fires (\<open>Tick\<close>, \<open>Fire\<close>); the transport opens or closes. Where a
  \<^verbatim>\<open>connect\<close> closure runs, the event carries the \<^verbatim>\<open>connectionState\<close> it captured and
  whether the transport's \<^verbatim>\<open>connect\<close> throws; \<open>Tick\<close> carries the value that
  \<^verbatim>\<open>Math.random()\<close> returns, in \<open>[0, 1)\<close>.
\<close>

fun step :: "Options \<Rightarrow> Event \<Rightarrow> Hook \<Rightarrow> Hook" where
  "step cfg (Mount cap throws) s = mount cfg cap throws s"
| "step cfg Cleanup s = cleanup cfg s"
| "step cfg CallConnect s = reconnect cfg s"
| "step cfg CallDisconnect s = disconnect cfg s"
| "step cfg CallPing s = ping s"
| "step cfg (Inbound m) s = emit cfg m s"
| "step cfg (Tick h rnd) s = tick cfg h rnd s"
| "step cfg (Fire h cap throws) s = fire cfg h cap throws s"
| "step cfg (TransportOpened cid) s =
     s\<lparr>ws := (ws s)\<lparr>t_connected := True, t_connectionId := Some cid\<rparr>\<rparr>"
| "step cfg TransportClosed s =
     s\<lparr>ws := (ws s)\<lparr>t_connected := False, t_connectionId := None\<rparr>\<rparr>"

inductive reachable :: "Options \<Rightarrow> Hook \<Rightarrow> bool" for cfg :: Options where
  reachable_init: "reachable cfg init"
| reachable_step: "reachable cfg s \<Longrightarrow> reachable cfg (step cfg e s)"

definition run :: "Options \<Rightarrow> Event list \<Rightarrow> Hook" where
  "run cfg es = foldl (\<lambda>s e. step cfg e s) init es"

subsection \<open>Auxiliary definitions for the proofs\<close>

text \<open>
  The listeners a connect cycle registers, as a list: one per message type when a
  non-empty \<^verbatim>\<open>messageTypes\<close> is given, else one wildcard listener; then the error listener.
\<close>

definition wanted :: "Options \<Rightarrow> (Selector \<times> Handler) list" where
  "wanted cfg =
     (case messageTypes cfg of
        Some ts \<Rightarrow> if ts \<noteq> [] then map (\<lambda>t. (OnType t, H_handleMessage)) ts
                   else [(OnAny, H_handleMessage)]
      | None \<Rightarrow> [(OnAny, H_handleMessage)])
     @ [(OnType ''error'', H_errorListener)]"

text \<open>The listeners and intervals that no disposer in \<^verbatim>\<open>unsubscribersRef\<close> removes.\<close>

definition keptListeners :: "Hook \<Rightarrow> (nat \<times> Selector \<times> Handler) list" where
  "keptListeners s =
     filter (\<lambda>l. Unsub (fst l) \<notin> set (unsubscribers s)) (t_listeners (ws s))"

definition keptIntervals :: "Hook \<Rightarrow> (nat \<times> ConnectionState) list" where
  "keptIntervals s =
     filter (\<lambda>t. ClearInterval (fst t) \<notin> set (unsubscribers s)) (intervals s)"

text \<open>
  The invariant of the reachable states. Timers: the handles of the pending timeouts are
  distinct and were all handed out already, and a pending retry timer is the one that
  \<^verbatim>\<open>reconnectTimeoutRef\<close> holds. Subscriptions: \<^verbatim>\<open>unsubscribersRef\<close> holds exactly the
  disposers of the live listeners and intervals, and the live listeners, if any, are those
  of one connect cycle. Counter: the attempts are 0, or the attempt before the last one
  was below the bound.
\<close>

definition timers_ok :: "Hook \<Rightarrow> bool" where
  "timers_ok s =
     (distinct (map fst (timeouts s))
      \<and> (\<forall>t \<in> set (timeouts s). fst t < nextHandle s
            \<and> (fst (snd t) = RetryConnect \<longrightarrow> reconnectTimeout s = Some (fst t))))"

definition subs_ok :: "Options \<Rightarrow> Hook \<Rightarrow> bool" where
  "subs_ok cfg s =
     (unsubscribers s = map (\<lambda>l. Unsub (fst l)) (t_listeners (ws s))
                         @ map (\<lambda>t. ClearInterval (fst t)) (intervals s)
      \<and> (t_listeners (ws s) = [] \<or> map snd (t_listeners (ws s)) = wanted cfg))"

definition hook_inv :: "Options \<Rightarrow> Hook \<Rightarrow> bool" where
  "hook_inv cfg s =
     (timers_ok s \<and> subs_ok cfg s
      \<and> (reconnectAttempts s = 0
         \<or> real (reconnectAttempts s) < maxReconnectAttempts cfg + 1))"

text \<open>Concrete options, messages and states, for the instances below.\<close>

definition cfg_default :: Options where
  "cfg_default = \<lparr>autoConnect = None, messageTypes = None, onMessage = True,
     onConnect = True, onDisconnect = True, onError = True,
     cfg_maxReconnectAttempts = None\<rparr>"

definition msg_ack :: WsMessage where
  "msg_ack = \<lparr>msg_type = ''connected'', connection_id = ''c-17'', message = [],
     payload = []\<rparr>"

definition connecting3 :: Hook where
  "connecting3 = init\<lparr>connectionState := CONNECTING, isConnecting := True,
     reconnectAttempts := 3\<rparr>"

definition reconnecting2 :: Hook where
  "reconnecting2 = init\<lparr>connectionState := RECONNECTING, reconnectAttempts := 2\<rparr>"

definition cfg_six :: Options where
  "cfg_six = cfg_default\<lparr>cfg_maxReconnectAttempts := Some 6\<rparr>"

definition five_failed :: Hook where
  "five_failed = run cfg_six
     [Mount CONNECTING False, Tick 0 (1/2), Tick 0 (1/2), Tick 0 (1/2), Tick 0 (1/2),
      Tick 0 (1/2)]"

definition fired :: Hook where
  "fired = run cfg_default [Mount CONNECTING False, Tick 0 (1/4), Fire 1 CONNECTING False]"

definition one_failed :: Hook where
  "one_failed = init\<lparr>connectionState := RECONNECTING, reconnectAttempts := 1\<rparr>"

definition retrying :: Hook where
  "retrying = run cfg_default [Mount CONNECTING False, Tick 0 (1/4)]"

definition none_failed :: Hook where
  "none_failed = init\<lparr>connectionState := CONNECTING, isConnecting := True\<rparr>"

definition exhausted :: Hook where
  "exhausted = run cfg_default
     [Mount CONNECTING False, Tick 0 (1/4), Tick 0 (1/4), Tick 0 (1/4), Tick 0 (1/4),
      Tick 0 (1/4)]"

fun isCbMessage :: "Callback \<Rightarrow> bool" where
  "isCbMessage (CbMessage m) = True"
| "isCbMessage c = False"

definition msg_error :: WsMessage where
  "msg_error = \<lparr>msg_type = ''error'', connection_id = [], message = ''rate limited'',
     payload = []\<rparr>"

definition msg_corridor :: WsMessage where
  "msg_corridor = \<lparr>msg_type = ''corridor_update'', connection_id = [], message = [],
     payload = ''USD-EUR''\<rparr>"

definition cfg_snapshot :: Options where
  "cfg_snapshot = cfg_default\<lparr>messageTypes := Some [''snapshot_update'']\<rparr>"

definition established :: Hook where
  "established = run cfg_default
     [Mount DISCONNECTED False, TransportOpened ''c-17'', Inbound msg_ack]"

definition listening :: Hook where
  "listening = run cfg_default [Mount DISCONNECTED False]"

definition listening_snapshot :: Hook where
  "listening_snapshot = run cfg_snapshot [Mount DISCONNECTED False]"

definition settling :: Hook where
  "settling = run cfg_default [Mount DISCONNECTED False, CallConnect]"






section \<open>Properties\<close>

subsection \<open>Closed forms of the folds and of connect\<close>

lemma foldl_runDisposer:
  "foldl runDisposer s ds =
     s\<lparr>ws := (ws s)\<lparr>t_listeners :=
                        filter (\<lambda>l. Unsub (fst l) \<notin> set ds) (t_listeners (ws s))\<rparr>,
       intervals := filter (\<lambda>t. ClearInterval (fst t) \<notin> set ds) (intervals s)\<rparr>"
proof (induction ds arbitrary: s)
  case Nil
  show ?case by simp
next
  case (Cons d ds)
  show ?case
  proof (cases d)
    case (Unsub i)
    then show ?thesis by (simp add: Cons.IH conj_commute cong: filter_cong)
  next
    case (ClearInterval h)
    then show ?thesis by (simp add: Cons.IH conj_commute cong: filter_cong)
  qed
qed

lemma foldl_subscribe:
  "foldl subscribe s ls =
     s\<lparr>ws := (ws s)\<lparr>t_listeners := t_listeners (ws s)
                          @ zip [t_nextListener (ws s) ..< t_nextListener (ws s) + length ls] ls,
                      t_nextListener := t_nextListener (ws s) + length ls\<rparr>,
       unsubscribers := unsubscribers s
          @ map Unsub [t_nextListener (ws s) ..< t_nextListener (ws s) + length ls]\<rparr>"
proof (induction ls arbitrary: s)
  case Nil
  show ?case by simp
next
  case (Cons l ls)
  show ?case
    apply (subst foldl_Cons)
    apply (subst Cons.IH)
    apply (simp add: subscribe_def Let_def upt_conv_Cons [of "t_nextListener (ws s)"]
             del: upt_Suc)
    done
qed

lemma subscribe_wanted:
  "subscribe (case messageTypes cfg of
                Some ts \<Rightarrow>
                  if ts \<noteq> []
                  then foldl (\<lambda>s' t. subscribe s' (OnType t, H_handleMessage)) s ts
                  else subscribe s (OnAny, H_handleMessage)
              | None \<Rightarrow> subscribe s (OnAny, H_handleMessage))
             (OnType ''error'', H_errorListener)
   = foldl subscribe s (wanted cfg)"
proof -
  have "foldl (\<lambda>s' t. subscribe s' (OnType t, H_handleMessage)) s ts
        = foldl subscribe s (map (\<lambda>t. (OnType t, H_handleMessage)) ts)" for ts
    by (simp add: foldl_map)
  then show ?thesis
    by (simp add: wanted_def split: option.splits)
qed

lemma disposeAll_eq:
  "disposeAll s = s\<lparr>ws := (ws s)\<lparr>t_listeners := keptListeners s\<rparr>,
                     intervals := keptIntervals s, unsubscribers := []\<rparr>"
  by (simp add: disposeAll_def foldl_runDisposer keptListeners_def keptIntervals_def)

lemma connect_guard: "isConnecting s \<or> t_connected (ws s) \<Longrightarrow> connect cfg cap throws s = s"
  by (auto simp: connect_def)

lemma connect_eq:
  assumes "\<not> isConnecting s" and "\<not> t_connected (ws s)"
  shows "connect cfg cap throws s =
    s\<lparr>isConnecting := \<not> throws,
      connectionState := (if throws then DISCONNECTED else CONNECTING),
      ws := (ws s)\<lparr>t_listeners := keptListeners s
                 @ zip [t_nextListener (ws s) ..< t_nextListener (ws s) + length (wanted cfg)]
                     (wanted cfg),
               t_nextListener := t_nextListener (ws s) + length (wanted cfg),
               t_connectCalls := t_connectCalls (ws s) + 1\<rparr>,
      unsubscribers :=
        map Unsub [t_nextListener (ws s) ..< t_nextListener (ws s) + length (wanted cfg)]
        @ [ClearInterval (nextHandle s)],
      intervals := keptIntervals s @ [(nextHandle s, cap)],
      nextHandle := nextHandle s + 1\<rparr>"
  using assms
  apply (simp only: connect_def Let_def subscribe_wanted if_False)
  apply (simp add: foldl_subscribe disposeAll_eq tryConnect_def setInterval_def Let_def
           keptListeners_def keptIntervals_def)
  done

subsection \<open>The acknowledgement message\<close>

lemma handleMessage_connected:
  assumes "msg_type m = ''connected''"
  shows "handleMessage cfg m s =
    s\<lparr>lastMessage := Some m, isConnected := True,
      connectionId := Some (connection_id m), connectionState := CONNECTED,
      isConnecting := False, reconnectAttempts := 0,
      calls := calls s @ (if onConnect cfg then [CbConnect] else [])
                 @ (if onMessage cfg then [CbMessage m] else [])\<rparr>"
  using assms by (simp add: handleMessage_def invoke_def Let_def)

text \<open>
  C6. When \<^verbatim>\<open>handleMessage\<close> receives a \<^verbatim>\<open>'connected'\<close> message while the state is
  \<open>CONNECTING\<close>, the state becomes \<open>CONNECTED\<close>, the carried connection id is stored, the
  reconnect counter is 0 whatever it was, the in-flight flag is cleared, and
  \<^verbatim>\<open>onConnect\<close> is invoked (when supplied), before \<^verbatim>\<open>onMessage\<close>.
\<close>

theorem ack_while_connecting:
  assumes "connectionState s = CONNECTING" and "msg_type m = ''connected''"
  shows "connectionState (handleMessage cfg m s) = CONNECTED
       \<and> isConnected (handleMessage cfg m s)
       \<and> connectionId (handleMessage cfg m s) = Some (connection_id m)
       \<and> reconnectAttempts (handleMessage cfg m s) = 0
       \<and> \<not> isConnecting (handleMessage cfg m s)
       \<and> calls (handleMessage cfg m s)
           = calls s @ (if onConnect cfg then [CbConnect] else [])
               @ (if onMessage cfg then [CbMessage m] else [])"
  by (simp add: handleMessage_connected [OF assms(2)])

theorem ack_while_connecting_witness:
  "connectionState connecting3 = CONNECTING \<and> msg_type msg_ack = ''connected''
   \<and> reconnectAttempts connecting3 = 3
   \<and> connectionState (handleMessage cfg_default msg_ack connecting3) = CONNECTED
   \<and> connectionId (handleMessage cfg_default msg_ack connecting3) = Some ''c-17''
   \<and> reconnectAttempts (handleMessage cfg_default msg_ack connecting3) = 0
   \<and> \<not> isConnecting (handleMessage cfg_default msg_ack connecting3)
   \<and> calls (handleMessage cfg_default msg_ack connecting3) = [CbConnect, CbMessage msg_ack]"
proof -
  have h1: "connectionState connecting3 = CONNECTING"
    by (simp add: connecting3_def)
  have h2: "msg_type msg_ack = ''connected''"
    by (simp add: msg_ack_def)
  show ?thesis
    using h1 h2 ack_while_connecting [OF h1 h2, of cfg_default]
    by (simp add: connecting3_def init_def cfg_default_def msg_ack_def)
qed

text \<open>
  C10. \<^verbatim>\<open>handleMessage\<close> does not look at the current state: a \<^verbatim>\<open>'connected'\<close> message
  performs the whole transition from every state. It sets \<^verbatim>\<open>isConnected\<close>, stores the
  carried \<^verbatim>\<open>connection_id\<close>, sets the state to \<open>CONNECTED\<close>, clears the in-flight flag,
  resets the reconnect counter to 0 and invokes \<^verbatim>\<open>onConnect\<close> (when supplied).
\<close>

theorem connected_message_from_every_state:
  assumes "msg_type m = ''connected''"
  shows "isConnected (handleMessage cfg m s)
       \<and> connectionId (handleMessage cfg m s) = Some (connection_id m)
       \<and> connectionState (handleMessage cfg m s) = CONNECTED
       \<and> \<not> isConnecting (handleMessage cfg m s)
       \<and> reconnectAttempts (handleMessage cfg m s) = 0
       \<and> calls (handleMessage cfg m s)
           = calls s @ (if onConnect cfg then [CbConnect] else [])
               @ (if onMessage cfg then [CbMessage m] else [])"
  by (simp add: handleMessage_connected [OF assms])

theorem connected_message_from_every_state_witness:
  "msg_type msg_ack = ''connected''
   \<and> connectionState reconnecting2 = RECONNECTING \<and> connectionState init = DISCONNECTED
   \<and> isConnected (handleMessage cfg_default msg_ack reconnecting2)
   \<and> connectionState (handleMessage cfg_default msg_ack reconnecting2) = CONNECTED
   \<and> reconnectAttempts (handleMessage cfg_default msg_ack reconnecting2) = 0
   \<and> connectionState (handleMessage cfg_default msg_ack init) = CONNECTED
   \<and> calls (handleMessage cfg_default msg_ack init) = [CbConnect, CbMessage msg_ack]"
proof -
  have h: "msg_type msg_ack = ''connected''"
    by (simp add: msg_ack_def)
  show ?thesis
    using h connected_message_from_every_state [OF h, of cfg_default reconnecting2]
      connected_message_from_every_state [OF h, of cfg_default init]
    by (simp add: reconnecting2_def init_def cfg_default_def)
qed

subsection \<open>The guard of connect\<close>

text \<open>
  C1. When the in-flight flag is set or the transport reports \<^verbatim>\<open>isConnected()\<close>,
  \<^verbatim>\<open>connect()\<close> returns with the state, the transport included, as it was. So when a first
  \<^verbatim>\<open>connect()\<close> passes the guard and the transport's \<^verbatim>\<open>connect\<close> returns, the hook is
  \<open>CONNECTING\<close> with the flag set, a second \<^verbatim>\<open>connect()\<close> changes nothing, and the
  transport has seen exactly one \<^verbatim>\<open>connect\<close> call.
\<close>

theorem connect_idempotent:
  "(isConnecting s \<or> t_connected (ws s) \<longrightarrow> connect cfg cap throws s = s)
   \<and> (\<not> isConnecting s \<and> \<not> t_connected (ws s) \<longrightarrow>
        connectionState (connect cfg cap False s) = CONNECTING
      \<and> isConnecting (connect cfg cap False s)
      \<and> connect cfg cap' throws (connect cfg cap False s) = connect cfg cap False s
      \<and> t_connectCalls (ws (connect cfg cap' throws (connect cfg cap False s)))
          = t_connectCalls (ws s) + 1)"
proof (intro conjI impI)
  assume "isConnecting s \<or> t_connected (ws s)"
  then show "connect cfg cap throws s = s"
    by (rule connect_guard)
next
  assume g: "\<not> isConnecting s \<and> \<not> t_connected (ws s)"
  then have eq: "connect cfg cap False s = (connect cfg cap False s)\<lparr>isConnecting := True\<rparr>"
    and cs: "connectionState (connect cfg cap False s) = CONNECTING"
    and fl: "isConnecting (connect cfg cap False s)"
    and n: "t_connectCalls (ws (connect cfg cap False s)) = t_connectCalls (ws s) + 1"
    by (simp_all add: connect_eq)
  from fl have again: "connect cfg cap' throws (connect cfg cap False s) = connect cfg cap False s"
    by (simp add: connect_guard)
  show "connectionState (connect cfg cap False s) = CONNECTING" by (rule cs)
  show "isConnecting (connect cfg cap False s)" by (rule fl)
  show "connect cfg cap' throws (connect cfg cap False s) = connect cfg cap False s"
    by (rule again)
  show "t_connectCalls (ws (connect cfg cap' throws (connect cfg cap False s)))
          = t_connectCalls (ws s) + 1"
    by (simp only: again n)
qed

theorem connect_idempotent_witness:
  "\<not> isConnecting init \<and> \<not> t_connected (ws init)
   \<and> connectionState (connect cfg_default DISCONNECTED False init) = CONNECTING
   \<and> isConnecting (connect cfg_default DISCONNECTED False init)
   \<and> t_connectCalls (ws init) = 0
   \<and> t_connectCalls (ws (connect cfg_default CONNECTING False
        (connect cfg_default DISCONNECTED False init))) = 1
   \<and> isConnecting connecting3
   \<and> connect cfg_default CONNECTING False connecting3 = connecting3"
proof -
  have h: "\<not> isConnecting init \<and> \<not> t_connected (ws init)"
    by (simp add: init_def transport0_def)
  have z: "t_connectCalls (ws init) = 0"
    by (simp add: init_def transport0_def)
  have c: "connectionState (connect cfg_default DISCONNECTED False init) = CONNECTING
      \<and> isConnecting (connect cfg_default DISCONNECTED False init)
      \<and> t_connectCalls (ws (connect cfg_default CONNECTING False
            (connect cfg_default DISCONNECTED False init))) = t_connectCalls (ws init) + 1"
    using h connect_idempotent [of init cfg_default DISCONNECTED False CONNECTING]
    by blast
  then have o: "t_connectCalls (ws (connect cfg_default CONNECTING False
        (connect cfg_default DISCONNECTED False init))) = 1"
    by (simp add: z)
  have f: "isConnecting connecting3"
    by (simp add: connecting3_def)
  then have g: "connect cfg_default CONNECTING False connecting3 = connecting3"
    using connect_idempotent [of connecting3 cfg_default CONNECTING False CONNECTING] by blast
  from h z c o f g show ?thesis
    by blast
qed

subsection \<open>The invariant of the reachable states\<close>

lemma cancel_eq:
  "cancelReconnectTimeout s =
     s\<lparr>timeouts := timeouts (cancelReconnectTimeout s), reconnectTimeout := None\<rparr>"
  by (simp add: cancelReconnectTimeout_def clearTimeout_def split: option.splits)

lemma cancel_timeouts:
  "timeouts (cancelReconnectTimeout s) =
     (case reconnectTimeout s of Some h \<Rightarrow> filter (\<lambda>t. fst t \<noteq> h) (timeouts s)
      | None \<Rightarrow> timeouts s)"
  by (simp add: cancelReconnectTimeout_def clearTimeout_def split: option.splits)

lemma cancel_no_retry:
  assumes "timers_ok s" and "t \<in> set (timeouts (cancelReconnectTimeout s))"
  shows "fst (snd t) = SettleConnect"
  using assms
  by (cases "fst (snd t)") (auto simp: timers_ok_def cancel_timeouts split: option.splits)

lemma cancel_subset: "set (timeouts (cancelReconnectTimeout s)) \<subseteq> set (timeouts s)"
  by (auto simp: cancel_timeouts split: option.splits)

lemma cancel_distinct:
  "distinct (map fst (timeouts s)) \<Longrightarrow> distinct (map fst (timeouts (cancelReconnectTimeout s)))"
  by (auto simp: cancel_timeouts distinct_map_filter split: option.splits)

lemma scheduleReconnect_refuse:
  assumes "\<not> (shouldReconnect s \<and> reconnectAttempts s < maxReconnectAttempts cfg)"
  shows "scheduleReconnect cfg rnd s =
     s\<lparr>timeouts := timeouts (cancelReconnectTimeout s), reconnectTimeout := None,
       connectionState := DISCONNECTED, isConnecting := False\<rparr>"
  using assms
  by (auto simp: scheduleReconnect_def Let_def cancelReconnectTimeout_def clearTimeout_def
      split: option.splits)

lemma scheduleReconnect_arm:
  assumes "shouldReconnect s" and "reconnectAttempts s < maxReconnectAttempts cfg"
  shows "scheduleReconnect cfg rnd s =
     s\<lparr>timeouts := timeouts (cancelReconnectTimeout s)
          @ [(nextHandle s, RetryConnect,
              min (1000 * 2 ^ reconnectAttempts s + rnd * 1000) 30000)],
       nextHandle := nextHandle s + 1,
       reconnectTimeout := Some (nextHandle s),
       reconnectAttempts := reconnectAttempts s + 1,
       connectionState := RECONNECTING\<rparr>"
  using assms
  by (auto simp: scheduleReconnect_def Let_def cancelReconnectTimeout_def clearTimeout_def
      setTimeout_def split: option.splits)

lemma timers_ok_schedule:
  assumes "timers_ok s"
  shows "timers_ok (scheduleReconnect cfg rnd s)"
proof (cases "shouldReconnect s \<and> reconnectAttempts s < maxReconnectAttempts cfg")
  case False
  have "fst (snd t) \<noteq> RetryConnect" if "t \<in> set (timeouts (cancelReconnectTimeout s))" for t
    using cancel_no_retry [OF assms that] by simp
  moreover have "fst t < nextHandle s" if "t \<in> set (timeouts (cancelReconnectTimeout s))" for t
    using that cancel_subset [of s] assms by (auto simp: timers_ok_def)
  moreover have "distinct (map fst (timeouts (cancelReconnectTimeout s)))"
    using assms by (simp add: cancel_distinct timers_ok_def)
  ultimately show ?thesis
    by (simp add: scheduleReconnect_refuse [OF False] timers_ok_def)
next
  case True
  have a: "fst (snd t) \<noteq> RetryConnect" if "t \<in> set (timeouts (cancelReconnectTimeout s))" for t
    using cancel_no_retry [OF assms that] by simp
  have b: "fst t < nextHandle s" if "t \<in> set (timeouts (cancelReconnectTimeout s))" for t
    using that cancel_subset [of s] assms by (auto simp: timers_ok_def)
  have c: "distinct (map fst (timeouts (cancelReconnectTimeout s)))"
    using assms by (simp add: cancel_distinct timers_ok_def)
  from True have e: "shouldReconnect s" "reconnectAttempts s < maxReconnectAttempts cfg"
    by simp_all
  show ?thesis
    using a b c by (fastforce simp: scheduleReconnect_arm [OF e] timers_ok_def less_Suc_eq)
qed

lemma hook_inv_schedule:
  assumes "hook_inv cfg s"
  shows "hook_inv cfg (scheduleReconnect cfg rnd s)"
proof -
  have t: "timers_ok (scheduleReconnect cfg rnd s)"
    using assms by (simp add: hook_inv_def timers_ok_schedule)
  show ?thesis
  proof (cases "shouldReconnect s \<and> reconnectAttempts s < maxReconnectAttempts cfg")
    case False
    show ?thesis
      using assms t
      by (simp add: hook_inv_def subs_ok_def scheduleReconnect_refuse [OF False])
  next
    case True
    then have e: "shouldReconnect s" "reconnectAttempts s < maxReconnectAttempts cfg"
      by simp_all
    show ?thesis
      using assms t e(2)
      by (simp add: hook_inv_def subs_ok_def scheduleReconnect_arm [OF e])
  qed
qed

lemma hook_inv_cong:
  assumes "hook_inv cfg s"
    and "timeouts s' = timeouts s" and "nextHandle s' = nextHandle s"
    and "reconnectTimeout s' = reconnectTimeout s"
    and "unsubscribers s' = unsubscribers s"
    and "t_listeners (ws s') = t_listeners (ws s)"
    and "intervals s' = intervals s"
    and "reconnectAttempts s' \<le> reconnectAttempts s"
  shows "hook_inv cfg s'"
proof -
  have "reconnectAttempts s = 0 \<or> real (reconnectAttempts s) < maxReconnectAttempts cfg + 1"
    using assms(1) by (simp add: hook_inv_def)
  with assms(8)
  have "reconnectAttempts s' = 0 \<or> real (reconnectAttempts s') < maxReconnectAttempts cfg + 1"
    by auto
  then show ?thesis
    using assms(1-7) by (simp add: hook_inv_def timers_ok_def subs_ok_def)
qed

lemma checkInterval_connected:
  assumes "t_connected (ws s)"
  shows "checkInterval cfg cap rnd s =
     (if cap \<noteq> CONNECTED
      then s\<lparr>isConnected := True, connectionId := t_connectionId (ws s),
             connectionState := CONNECTED, isConnecting := False\<rparr>
      else s\<lparr>isConnected := True, connectionId := t_connectionId (ws s)\<rparr>)"
  using assms by (simp add: checkInterval_def Let_def)

lemma checkInterval_idle:
  assumes "\<not> t_connected (ws s)" and "cap \<noteq> CONNECTED" and "cap \<noteq> CONNECTING"
  shows "checkInterval cfg cap rnd s = s\<lparr>isConnected := False, connectionId := None\<rparr>"
  using assms by (simp add: checkInterval_def Let_def)

lemma checkInterval_retry:
  assumes "\<not> t_connected (ws s)" and "cap = CONNECTED \<or> cap = CONNECTING"
    and "shouldReconnect s" and "reconnectAttempts s < maxReconnectAttempts cfg"
  shows "checkInterval cfg cap rnd s =
     scheduleReconnect cfg rnd (s\<lparr>isConnected := False, connectionId := None\<rparr>)"
  using assms by (auto simp: checkInterval_def Let_def)

lemma checkInterval_refuse:
  assumes "\<not> t_connected (ws s)" and "cap = CONNECTED \<or> cap = CONNECTING"
    and "\<not> (shouldReconnect s \<and> reconnectAttempts s < maxReconnectAttempts cfg)"
  shows "checkInterval cfg cap rnd s =
     s\<lparr>isConnected := False, connectionId := None,
       connectionState := DISCONNECTED, isConnecting := False\<rparr>"
  using assms by (auto simp: checkInterval_def Let_def)

lemma hook_inv_checkInterval:
  assumes "hook_inv cfg s"
  shows "hook_inv cfg (checkInterval cfg cap rnd s)"
proof -
  consider (up) "t_connected (ws s)"
    | (idle) "\<not> t_connected (ws s)" "cap \<noteq> CONNECTED" "cap \<noteq> CONNECTING"
    | (retry) "\<not> t_connected (ws s)" "cap = CONNECTED \<or> cap = CONNECTING"
        "shouldReconnect s" "reconnectAttempts s < maxReconnectAttempts cfg"
    | (refuse) "\<not> t_connected (ws s)" "cap = CONNECTED \<or> cap = CONNECTING"
        "\<not> (shouldReconnect s \<and> reconnectAttempts s < maxReconnectAttempts cfg)"
    by blast
  then show ?thesis
  proof cases
    case up
    show ?thesis
      by (rule hook_inv_cong [OF assms]) (simp_all add: checkInterval_connected [OF up])
  next
    case idle
    show ?thesis
      by (rule hook_inv_cong [OF assms]) (simp_all add: checkInterval_idle [OF idle])
  next
    case retry
    have "hook_inv cfg (s\<lparr>isConnected := False, connectionId := None\<rparr>)"
      by (rule hook_inv_cong [OF assms]) simp_all
    then show ?thesis
      by (simp add: checkInterval_retry [OF retry] hook_inv_schedule)
  next
    case refuse
    show ?thesis
      by (rule hook_inv_cong [OF assms]) (simp_all add: checkInterval_refuse [OF refuse])
  qed
qed

lemma hook_inv_handleMessage:
  assumes "hook_inv cfg s"
  shows "hook_inv cfg (handleMessage cfg m s)"
  by (rule hook_inv_cong [OF assms]) (simp_all add: handleMessage_def invoke_def Let_def)

lemma hook_inv_deliverTo:
  assumes "hook_inv cfg s"
  shows "hook_inv cfg (deliverTo cfg m s l)"
proof (cases "matches (fst (snd l)) m")
  case False
  then show ?thesis using assms by (simp add: deliverTo_def)
next
  case True
  show ?thesis
  proof (cases "snd (snd l)")
    case H_handleMessage
    then show ?thesis
      using True assms by (simp add: deliverTo_def hook_inv_handleMessage)
  next
    case H_errorListener
    have "hook_inv cfg (s\<lparr>isConnecting := False, connectionState := DISCONNECTED\<rparr>)"
      by (rule hook_inv_cong [OF assms]) simp_all
    then show ?thesis
      using True H_errorListener by (simp add: deliverTo_def)
  qed
qed

lemma hook_inv_foldl_deliverTo:
  "hook_inv cfg s \<Longrightarrow> hook_inv cfg (foldl (deliverTo cfg m) s ls)"
  by (induction ls arbitrary: s) (simp_all add: hook_inv_deliverTo)

lemma hook_inv_emit: "hook_inv cfg s \<Longrightarrow> hook_inv cfg (emit cfg m s)"
  by (simp add: emit_def hook_inv_foldl_deliverTo)

lemma subs_ok_kept:
  assumes "subs_ok cfg s"
  shows "keptListeners s = []" and "keptIntervals s = []"
  using assms
  by (auto simp: subs_ok_def keptListeners_def keptIntervals_def filter_empty_conv)

lemma map_fst_zip_upt:
  "map (\<lambda>l. f (fst l)) (zip [n ..< n + length xs] xs) = map f [n ..< n + length xs]"
proof -
  have e: "map (\<lambda>l. f (fst l)) zs = map f (map fst zs)" for zs :: "(nat \<times> 'b) list"
    by (simp add: comp_def)
  show ?thesis
    by (subst e) simp
qed

lemma hook_inv_connect:
  assumes "hook_inv cfg s"
  shows "hook_inv cfg (connect cfg cap throws s)"
proof (cases "isConnecting s \<or> t_connected (ws s)")
  case True
  then show ?thesis using assms by (simp add: connect_guard)
next
  case False
  then have g: "\<not> isConnecting s" "\<not> t_connected (ws s)" by simp_all
  have "subs_ok cfg s"
    using assms by (simp add: hook_inv_def)
  then have k: "keptListeners s = []" "keptIntervals s = []"
    by (rule subs_ok_kept)+
  have t: "timers_ok (connect cfg cap throws s)"
    using assms by (auto simp: connect_eq [OF g] hook_inv_def timers_ok_def less_Suc_eq)
  have u: "subs_ok cfg (connect cfg cap throws s)"
    by (simp add: connect_eq [OF g] k subs_ok_def map_fst_zip_upt)
  show ?thesis
    using assms t u by (simp add: hook_inv_def connect_eq [OF g])
qed

lemma disconnect_eq:
  "disconnect cfg s =
    s\<lparr>shouldReconnect := False, isConnecting := False,
      timeouts := timeouts (cancelReconnectTimeout s), reconnectTimeout := None,
      ws := (ws s)\<lparr>t_listeners := keptListeners s, t_connected := False,
               t_connectionId := None, t_disconnectCalls := t_disconnectCalls (ws s) + 1\<rparr>,
      intervals := keptIntervals s, unsubscribers := [],
      isConnected := False, connectionId := None, connectionState := DISCONNECTED,
      reconnectAttempts := 0,
      calls := calls s @ (if onDisconnect cfg then [CbDisconnect] else [])\<rparr>"
  by (simp add: disconnect_def Let_def disposeAll_eq invoke_def keptListeners_def
      keptIntervals_def cancelReconnectTimeout_def clearTimeout_def split: option.splits)

lemma hook_inv_disconnect:
  assumes "hook_inv cfg s"
  shows "hook_inv cfg (disconnect cfg s)"
proof -
  have "subs_ok cfg s"
    using assms by (simp add: hook_inv_def)
  then have k: "keptListeners s = []" "keptIntervals s = []"
    by (rule subs_ok_kept)+
  have t: "timers_ok s" using assms by (simp add: hook_inv_def)
  have a: "fst (snd t) \<noteq> RetryConnect" if "t \<in> set (timeouts (cancelReconnectTimeout s))" for t
    using cancel_no_retry [OF t that] by simp
  have b: "fst t < nextHandle s" if "t \<in> set (timeouts (cancelReconnectTimeout s))" for t
    using that cancel_subset [of s] t by (auto simp: timers_ok_def)
  have c: "distinct (map fst (timeouts (cancelReconnectTimeout s)))"
    using t by (simp add: cancel_distinct timers_ok_def)
  show ?thesis
    using a b c by (simp add: disconnect_eq k hook_inv_def timers_ok_def subs_ok_def)
qed

lemma hook_inv_reconnect:
  assumes "hook_inv cfg s"
  shows "hook_inv cfg (reconnect cfg s)"
proof -
  have d: "hook_inv cfg (disconnect cfg s)"
    using assms by (rule hook_inv_disconnect)
  have r: "reconnectTimeout (disconnect cfg s) = None"
    by (simp add: disconnect_eq)
  show ?thesis
    using d r
    by (auto simp: reconnect_def Let_def setTimeout_def hook_inv_def timers_ok_def subs_ok_def
        less_Suc_eq)
qed

lemma hook_inv_clearTimeout:
  assumes "hook_inv cfg s"
  shows "hook_inv cfg (clearTimeout h s)"
  using assms
  by (auto simp: clearTimeout_def hook_inv_def timers_ok_def subs_ok_def distinct_map_filter)

lemma hook_inv_fire:
  assumes "hook_inv cfg s"
  shows "hook_inv cfg (fire cfg h cap throws s)"
proof (cases "map_of (timeouts s) h")
  case None
  then show ?thesis using assms by (simp add: fire_def)
next
  case (Some kd)
  have c: "hook_inv cfg (clearTimeout h s)"
    using assms by (rule hook_inv_clearTimeout)
  have c': "hook_inv cfg ((clearTimeout h s)\<lparr>isConnecting := False\<rparr>)"
    by (rule hook_inv_cong [OF c]) simp_all
  show ?thesis
    using Some c c'
    by (cases kd; cases "fst kd") (simp_all add: fire_def Let_def hook_inv_connect)
qed

lemma hook_inv_tick:
  "hook_inv cfg s \<Longrightarrow> hook_inv cfg (tick cfg h rnd s)"
  by (simp add: tick_def hook_inv_checkInterval split: option.splits)

lemma hook_inv_mount:
  assumes "hook_inv cfg s"
  shows "hook_inv cfg (mount cfg cap throws s)"
proof -
  have "hook_inv cfg (s\<lparr>shouldReconnect := True\<rparr>)"
    by (rule hook_inv_cong [OF assms]) simp_all
  then show ?thesis
    using assms by (simp add: mount_def hook_inv_connect)
qed

lemma hook_inv_cleanup:
  assumes "hook_inv cfg s"
  shows "hook_inv cfg (cleanup cfg s)"
proof -
  have "hook_inv cfg (s\<lparr>shouldReconnect := False\<rparr>)"
    by (rule hook_inv_cong [OF assms]) simp_all
  then show ?thesis
    by (simp add: cleanup_def hook_inv_disconnect)
qed

lemma hook_inv_step:
  assumes "hook_inv cfg s"
  shows "hook_inv cfg (step cfg e s)"
proof (cases e)
  case (Mount cap throws)
  then show ?thesis using assms by (simp add: hook_inv_mount)
next
  case Cleanup
  then show ?thesis using assms by (simp add: hook_inv_cleanup)
next
  case CallConnect
  then show ?thesis using assms by (simp add: hook_inv_reconnect)
next
  case CallDisconnect
  then show ?thesis using assms by (simp add: hook_inv_disconnect)
next
  case CallPing
  have "hook_inv cfg (ping s)"
    by (rule hook_inv_cong [OF assms]) (simp_all add: ping_def)
  with CallPing show ?thesis by simp
next
  case (Inbound m)
  then show ?thesis using assms by (simp add: hook_inv_emit)
next
  case (Tick h rnd)
  then show ?thesis using assms by (simp add: hook_inv_tick)
next
  case (Fire h cap throws)
  then show ?thesis using assms by (simp add: hook_inv_fire)
next
  case (TransportOpened cid)
  have "hook_inv cfg (s\<lparr>ws := (ws s)\<lparr>t_connected := True, t_connectionId := Some cid\<rparr>\<rparr>)"
    by (rule hook_inv_cong [OF assms]) simp_all
  with TransportOpened show ?thesis by simp
next
  case TransportClosed
  have "hook_inv cfg (s\<lparr>ws := (ws s)\<lparr>t_connected := False, t_connectionId := None\<rparr>\<rparr>)"
    by (rule hook_inv_cong [OF assms]) simp_all
  with TransportClosed show ?thesis by simp
qed

lemma hook_inv_init: "hook_inv cfg init"
  by (simp add: hook_inv_def timers_ok_def subs_ok_def init_def transport0_def)

lemma reachable_hook_inv: "reachable cfg s \<Longrightarrow> hook_inv cfg s"
  by (induction rule: reachable.induct) (simp_all add: hook_inv_init hook_inv_step)

subsection \<open>Concrete runs\<close>

text \<open>The states that the instances below start from, evaluated.\<close>

lemmas hook_defs = run_def mount_def connect_def disposeAll_def subscribe_def tryConnect_def
  setInterval_def tick_def checkInterval_def scheduleReconnect_def cancelReconnectTimeout_def
  clearTimeout_def setTimeout_def maxReconnectAttempts_def init_def transport0_def
  cfg_default_def cfg_six_def cfg_snapshot_def Let_def

lemma max_default: "maxReconnectAttempts cfg_default = 5"
  by (simp add: maxReconnectAttempts_def cfg_default_def)

lemma max_six: "maxReconnectAttempts cfg_six = 6"
  by (simp add: maxReconnectAttempts_def cfg_six_def)

lemma reachable_run: "reachable cfg (run cfg es)"
proof (induction es rule: rev_induct)
  case Nil
  show ?case by (simp add: run_def reachable_init)
next
  case (snoc e es)
  then show ?case by (simp add: run_def reachable_step)
qed

lemma retrying_eq: "retrying =
  \<lparr>isConnected = False, connectionId = None, lastMessage = None,
    connectionState = RECONNECTING,
    ws = \<lparr>t_connected = False, t_connectionId = None,
            t_listeners = [(0, OnAny, H_handleMessage), (1, OnType ''error'', H_errorListener)],
            t_nextListener = 2, t_connectCalls = 1, t_disconnectCalls = 0, t_pings = 0\<rparr>,
    unsubscribers = [Unsub 0, Unsub 1, ClearInterval 0],
    isConnecting = True, reconnectTimeout = Some 1, reconnectAttempts = 1,
    shouldReconnect = True, timeouts = [(1, RetryConnect, 1250)],
    intervals = [(0, CONNECTING)], nextHandle = 2, calls = []\<rparr>"
  by (simp add: retrying_def hook_defs)

lemma exhausted_eq: "exhausted =
  \<lparr>isConnected = False, connectionId = None, lastMessage = None,
    connectionState = RECONNECTING,
    ws = \<lparr>t_connected = False, t_connectionId = None,
            t_listeners = [(0, OnAny, H_handleMessage), (1, OnType ''error'', H_errorListener)],
            t_nextListener = 2, t_connectCalls = 1, t_disconnectCalls = 0, t_pings = 0\<rparr>,
    unsubscribers = [Unsub 0, Unsub 1, ClearInterval 0],
    isConnecting = True, reconnectTimeout = Some 5, reconnectAttempts = 5,
    shouldReconnect = True, timeouts = [(5, RetryConnect, 16250)],
    intervals = [(0, CONNECTING)], nextHandle = 6, calls = []\<rparr>"
  by (simp add: exhausted_def hook_defs)

lemma established_eq: "established =
  \<lparr>isConnected = True, connectionId = Some ''c-17'', lastMessage = Some msg_ack,
    connectionState = CONNECTED,
    ws = \<lparr>t_connected = True, t_connectionId = Some ''c-17'',
            t_listeners = [(0, OnAny, H_handleMessage), (1, OnType ''error'', H_errorListener)],
            t_nextListener = 2, t_connectCalls = 1, t_disconnectCalls = 0, t_pings = 0\<rparr>,
    unsubscribers = [Unsub 0, Unsub 1, ClearInterval 0],
    isConnecting = False, reconnectTimeout = None, reconnectAttempts = 0,
    shouldReconnect = True, timeouts = [], intervals = [(0, DISCONNECTED)],
    nextHandle = 1, calls = [CbConnect, CbMessage msg_ack]\<rparr>"
  by (simp add: established_def hook_defs emit_def deliverTo_def handleMessage_def invoke_def
      msg_ack_def)

lemma listening_eq: "listening =
  \<lparr>isConnected = False, connectionId = None, lastMessage = None,
    connectionState = CONNECTING,
    ws = \<lparr>t_connected = False, t_connectionId = None,
            t_listeners = [(0, OnAny, H_handleMessage), (1, OnType ''error'', H_errorListener)],
            t_nextListener = 2, t_connectCalls = 1, t_disconnectCalls = 0, t_pings = 0\<rparr>,
    unsubscribers = [Unsub 0, Unsub 1, ClearInterval 0],
    isConnecting = True, reconnectTimeout = None, reconnectAttempts = 0,
    shouldReconnect = True, timeouts = [], intervals = [(0, DISCONNECTED)],
    nextHandle = 1, calls = []\<rparr>"
  by (simp add: listening_def hook_defs)

lemma listening_snapshot_eq: "listening_snapshot =
  \<lparr>isConnected = False, connectionId = None, lastMessage = None,
    connectionState = CONNECTING,
    ws = \<lparr>t_connected = False, t_connectionId = None,
            t_listeners = [(0, OnType ''snapshot_update'', H_handleMessage),
                           (1, OnType ''error'', H_errorListener)],
            t_nextListener = 2, t_connectCalls = 1, t_disconnectCalls = 0, t_pings = 0\<rparr>,
    unsubscribers = [Unsub 0, Unsub 1, ClearInterval 0],
    isConnecting = True, reconnectTimeout = None, reconnectAttempts = 0,
    shouldReconnect = True, timeouts = [], intervals = [(0, DISCONNECTED)],
    nextHandle = 1, calls = []\<rparr>"
  by (simp add: listening_snapshot_def cfg_snapshot_def hook_defs)

lemma settling_eq: "settling =
  \<lparr>isConnected = False, connectionId = None, lastMessage = None,
    connectionState = DISCONNECTED,
    ws = \<lparr>t_connected = False, t_connectionId = None, t_listeners = [],
            t_nextListener = 2, t_connectCalls = 1, t_disconnectCalls = 1, t_pings = 0\<rparr>,
    unsubscribers = [],
    isConnecting = False, reconnectTimeout = None, reconnectAttempts = 0,
    shouldReconnect = True, timeouts = [(1, SettleConnect, 100)], intervals = [],
    nextHandle = 2, calls = [CbDisconnect]\<rparr>"
  by (simp add: settling_def hook_defs reconnect_def disconnect_def invoke_def)

lemma five_failed_eq: "five_failed =
  \<lparr>isConnected = False, connectionId = None, lastMessage = None,
    connectionState = RECONNECTING,
    ws = \<lparr>t_connected = False, t_connectionId = None,
            t_listeners = [(0, OnAny, H_handleMessage), (1, OnType ''error'', H_errorListener)],
            t_nextListener = 2, t_connectCalls = 1, t_disconnectCalls = 0, t_pings = 0\<rparr>,
    unsubscribers = [Unsub 0, Unsub 1, ClearInterval 0],
    isConnecting = True, reconnectTimeout = Some 5, reconnectAttempts = 5,
    shouldReconnect = True, timeouts = [(5, RetryConnect, 16500)],
    intervals = [(0, CONNECTING)], nextHandle = 6, calls = []\<rparr>"
  by (simp add: five_failed_def hook_defs)

lemma fired_eq: "fired =
  \<lparr>isConnected = False, connectionId = None, lastMessage = None,
    connectionState = CONNECTING,
    ws = \<lparr>t_connected = False, t_connectionId = None,
            t_listeners = [(2, OnAny, H_handleMessage), (3, OnType ''error'', H_errorListener)],
            t_nextListener = 4, t_connectCalls = 2, t_disconnectCalls = 0, t_pings = 0\<rparr>,
    unsubscribers = [Unsub 2, Unsub 3, ClearInterval 2],
    isConnecting = True, reconnectTimeout = Some 1, reconnectAttempts = 1,
    shouldReconnect = True, timeouts = [],
    intervals = [(2, CONNECTING)], nextHandle = 3, calls = []\<rparr>"
  by (simp add: fired_def hook_defs fire_def)

subsection \<open>The retry delay\<close>

text \<open>
  C2, as stated, fails. With \<^verbatim>\<open>maxReconnectAttempts\<close> set to 6, the sixth attempt is within
  \<open>[1, maxAttempts]\<close>; its delay is the cap of 30000 ms, below the claimed lower bound
  \<open>1000 * 2 ^ 5 = 32000\<close>.
\<close>

theorem retry_delay_counterexample:
  "shouldReconnect five_failed
   \<and> reconnectAttempts five_failed < maxReconnectAttempts cfg_six
   \<and> reconnectAttempts (scheduleReconnect cfg_six (1/2) five_failed) = 6
   \<and> 6 \<le> maxReconnectAttempts cfg_six
   \<and> timeouts (scheduleReconnect cfg_six (1/2) five_failed) = [(6, RetryConnect, 30000)]
   \<and> \<not> (1000 * 2 ^ (6 - 1) \<le> (30000::real))"
proof -
  have a: "shouldReconnect five_failed"
    "reconnectAttempts five_failed < maxReconnectAttempts cfg_six"
    by (simp_all add: five_failed_eq max_six)
  have b: "reconnectAttempts (scheduleReconnect cfg_six (1/2) five_failed) = 6"
    by (subst scheduleReconnect_arm [OF a]) (simp add: five_failed_eq)
  have c: "timeouts (scheduleReconnect cfg_six (1/2) five_failed) = [(6, RetryConnect, 30000)]"
    by (subst scheduleReconnect_arm [OF a]) (simp add: cancel_timeouts five_failed_eq)
  show ?thesis
    using a b c by (simp add: max_six)
qed

lemma pow_le_16: "n \<le> 4 \<Longrightarrow> (2::real) ^ n \<le> 16"
proof -
  assume "n \<le> 4"
  then have "(2::real) ^ n \<le> 2 ^ 4"
    by (intro power_increasing) simp_all
  then show ?thesis by simp
qed

lemma pow_ge_32: "5 \<le> n \<Longrightarrow> (32::real) \<le> 2 ^ n"
proof -
  assume "5 \<le> n"
  then have "(2::real) ^ 5 \<le> 2 ^ n"
    by (intro power_increasing) simp_all
  then show ?thesis by simp
qed

text \<open>
  C2, amended. When \<^verbatim>\<open>scheduleReconnect\<close> schedules attempt \<open>a\<close>, the timer it arms has
  delay \<open>min (1000 * 2 ^ (a - 1) + jitter) 30000\<close> with \<open>jitter = rnd * 1000\<close> in \<open>[0, 1000)\<close>.
  The delay lies between \<open>min (1000 * 2 ^ (a - 1)) 30000\<close> and
  \<open>min (1000 * 2 ^ (a - 1) + 1000) 30000\<close>. For \<open>a \<le> 5\<close>, so for every attempt under the
  default bound of 5, the lower end is \<open>1000 * 2 ^ (a - 1)\<close> as claimed; from the sixth attempt
  on the delay is exactly 30000.
\<close>

theorem retry_delay:
  assumes "shouldReconnect s" and "reconnectAttempts s < maxReconnectAttempts cfg"
    and "0 \<le> rnd" and "rnd < 1" and "a = reconnectAttempts s + 1"
  shows "reconnectAttempts (scheduleReconnect cfg rnd s) = a
       \<and> timeouts (scheduleReconnect cfg rnd s)
           = timeouts (cancelReconnectTimeout s)
             @ [(nextHandle s, RetryConnect, min (1000 * 2 ^ (a - 1) + rnd * 1000) 30000)]
       \<and> min (1000 * 2 ^ (a - 1)) 30000 \<le> min (1000 * 2 ^ (a - 1) + rnd * 1000) 30000
       \<and> min (1000 * 2 ^ (a - 1) + rnd * 1000) 30000 \<le> min (1000 * 2 ^ (a - 1) + 1000) 30000
       \<and> (a \<le> 5 \<longrightarrow> 1000 * 2 ^ (a - 1) \<le> min (1000 * 2 ^ (a - 1) + rnd * 1000) 30000)
       \<and> (6 \<le> a \<longrightarrow> min (1000 * 2 ^ (a - 1) + rnd * 1000) 30000 = 30000)"
proof -
  have n: "a - 1 = reconnectAttempts s"
    using assms(5) by simp
  have j: "0 \<le> rnd * 1000" "rnd * 1000 \<le> 1000"
    using assms(3,4) by simp_all
  have lo: "a \<le> 5 \<longrightarrow> 1000 * 2 ^ (a - 1) \<le> min (1000 * 2 ^ (a - 1) + rnd * 1000) 30000"
  proof
    assume "a \<le> 5"
    then have "(2::real) ^ (a - 1) \<le> 16"
      by (intro pow_le_16) simp
    with j show "1000 * 2 ^ (a - 1) \<le> min (1000 * 2 ^ (a - 1) + rnd * 1000) 30000"
      by simp
  qed
  have hi: "6 \<le> a \<longrightarrow> min (1000 * 2 ^ (a - 1) + rnd * 1000) 30000 = 30000"
  proof
    assume "6 \<le> a"
    then have "(32::real) \<le> 2 ^ (a - 1)"
      by (intro pow_ge_32) simp
    with j show "min (1000 * 2 ^ (a - 1) + rnd * 1000) 30000 = 30000"
      by simp
  qed
  have m1: "min (1000 * 2 ^ (a - 1)) 30000 \<le> min (1000 * 2 ^ (a - 1) + rnd * 1000) 30000"
    using j by simp
  have m2: "min (1000 * 2 ^ (a - 1) + rnd * 1000) 30000 \<le> min (1000 * 2 ^ (a - 1) + 1000) 30000"
    using j by simp
  show ?thesis
    using lo hi m1 m2
    by (simp add: scheduleReconnect_arm [OF assms(1,2)] n assms(5))
qed

theorem retry_delay_witness:
  "shouldReconnect one_failed \<and> reconnectAttempts one_failed < maxReconnectAttempts cfg_default
   \<and> (0::real) \<le> 1/4 \<and> (1/4::real) < 1 \<and> (2::nat) = reconnectAttempts one_failed + 1
   \<and> reconnectAttempts (scheduleReconnect cfg_default (1/4) one_failed) = 2
   \<and> timeouts (scheduleReconnect cfg_default (1/4) one_failed) = [(0, RetryConnect, 2250)]
   \<and> (2000::real) \<le> 2250 \<and> (2250::real) \<le> 3000
   \<and> shouldReconnect five_failed \<and> reconnectAttempts five_failed < maxReconnectAttempts cfg_six
   \<and> (6::nat) = reconnectAttempts five_failed + 1
   \<and> min (1000 * 2 ^ (6 - 1) + 1/2 * 1000) 30000 = (30000::real)"
proof -
  have h: "shouldReconnect one_failed"
      "reconnectAttempts one_failed < maxReconnectAttempts cfg_default"
      "(0::real) \<le> 1/4" "(1/4::real) < 1" "(2::nat) = reconnectAttempts one_failed + 1"
    by (simp_all add: one_failed_def init_def max_default)
  have k: "shouldReconnect five_failed"
      "reconnectAttempts five_failed < maxReconnectAttempts cfg_six"
      "(0::real) \<le> 1/2" "(1/2::real) < 1" "(6::nat) = reconnectAttempts five_failed + 1"
    by (simp_all add: five_failed_eq max_six)
  have six: "min (1000 * 2 ^ (6 - 1) + 1/2 * 1000) 30000 = (30000::real)"
    using retry_delay [OF k] by simp
  have two: "reconnectAttempts (scheduleReconnect cfg_default (1/4) one_failed) = 2
      \<and> timeouts (scheduleReconnect cfg_default (1/4) one_failed) = [(0, RetryConnect, 2250)]"
    using retry_delay [OF h] by (simp add: cancel_timeouts one_failed_def init_def)
  show ?thesis
    using h k six two by simp
qed

subsection \<open>The retry decision and the retry timer\<close>

text \<open>
  C7. \<^verbatim>\<open>scheduleReconnect\<close> arms a retry exactly when auto-reconnect is enabled and the
  attempt count is below \<^verbatim>\<open>maxReconnectAttempts\<close>: then the state is \<open>RECONNECTING\<close>, the
  count is one more and the new timer is pending. Otherwise the state is \<open>DISCONNECTED\<close>,
  the in-flight flag is cleared, the count is unchanged and no timer is armed. The interval
  callback of \<^verbatim>\<open>connect\<close> decides in the same way when it finds the transport down.
\<close>

theorem retry_decision:
  "(reconnectTimeout (scheduleReconnect cfg rnd s) \<noteq> None)
     = (shouldReconnect s \<and> reconnectAttempts s < maxReconnectAttempts cfg)
   \<and> (shouldReconnect s \<and> reconnectAttempts s < maxReconnectAttempts cfg \<longrightarrow>
        connectionState (scheduleReconnect cfg rnd s) = RECONNECTING
      \<and> reconnectAttempts (scheduleReconnect cfg rnd s) = reconnectAttempts s + 1
      \<and> reconnectTimeout (scheduleReconnect cfg rnd s) = Some (nextHandle s)
      \<and> (nextHandle s, RetryConnect, min (1000 * 2 ^ reconnectAttempts s + rnd * 1000) 30000)
            \<in> set (timeouts (scheduleReconnect cfg rnd s)))
   \<and> (\<not> (shouldReconnect s \<and> reconnectAttempts s < maxReconnectAttempts cfg) \<longrightarrow>
        connectionState (scheduleReconnect cfg rnd s) = DISCONNECTED
      \<and> \<not> isConnecting (scheduleReconnect cfg rnd s)
      \<and> reconnectAttempts (scheduleReconnect cfg rnd s) = reconnectAttempts s
      \<and> nextHandle (scheduleReconnect cfg rnd s) = nextHandle s
      \<and> set (timeouts (scheduleReconnect cfg rnd s)) \<subseteq> set (timeouts s))
   \<and> (\<not> t_connected (ws s) \<and> (cap = CONNECTED \<or> cap = CONNECTING) \<longrightarrow>
        (reconnectTimeout (checkInterval cfg cap rnd s) = Some (nextHandle s)
         \<and> connectionState (checkInterval cfg cap rnd s) = RECONNECTING)
          = (shouldReconnect s \<and> reconnectAttempts s < maxReconnectAttempts cfg)
      \<and> (connectionState (checkInterval cfg cap rnd s) = DISCONNECTED
         \<and> timeouts (checkInterval cfg cap rnd s) = timeouts s)
          = (\<not> (shouldReconnect s \<and> reconnectAttempts s < maxReconnectAttempts cfg)))"
proof (cases "shouldReconnect s \<and> reconnectAttempts s < maxReconnectAttempts cfg")
  case True
  then have e: "shouldReconnect s" "reconnectAttempts s < maxReconnectAttempts cfg"
    by simp_all
  have e': "shouldReconnect (s\<lparr>isConnected := False, connectionId := None\<rparr>)"
    "reconnectAttempts (s\<lparr>isConnected := False, connectionId := None\<rparr>)
       < maxReconnectAttempts cfg"
    using e by simp_all
  have p: "\<not> t_connected (ws s) \<and> (cap = CONNECTED \<or> cap = CONNECTING) \<longrightarrow>
        reconnectTimeout (checkInterval cfg cap rnd s) = Some (nextHandle s)
      \<and> connectionState (checkInterval cfg cap rnd s) = RECONNECTING"
    using e by (auto simp: checkInterval_retry scheduleReconnect_arm [OF e'])
  show ?thesis
    using True p by (simp add: scheduleReconnect_arm [OF e])
next
  case False
  have p: "\<not> t_connected (ws s) \<and> (cap = CONNECTED \<or> cap = CONNECTING) \<longrightarrow>
        connectionState (checkInterval cfg cap rnd s) = DISCONNECTED
      \<and> timeouts (checkInterval cfg cap rnd s) = timeouts s"
    using False by (auto simp: checkInterval_refuse)
  show ?thesis
    using False p cancel_subset [of s] by (simp add: scheduleReconnect_refuse [OF False])
qed

theorem retry_decision_witness:
  "shouldReconnect none_failed \<and> reconnectAttempts none_failed < maxReconnectAttempts cfg_default
   \<and> connectionState (scheduleReconnect cfg_default (1/4) none_failed) = RECONNECTING
   \<and> reconnectAttempts (scheduleReconnect cfg_default (1/4) none_failed) = 1
   \<and> reconnectTimeout (scheduleReconnect cfg_default (1/4) none_failed) = Some 0
   \<and> \<not> t_connected (ws none_failed)
   \<and> connectionState (checkInterval cfg_default CONNECTING (1/4) none_failed) = RECONNECTING
   \<and> \<not> (shouldReconnect exhausted
          \<and> reconnectAttempts exhausted < maxReconnectAttempts cfg_default)
   \<and> connectionState (scheduleReconnect cfg_default (1/4) exhausted) = DISCONNECTED
   \<and> reconnectTimeout (scheduleReconnect cfg_default (1/4) exhausted) = None
   \<and> reconnectAttempts (scheduleReconnect cfg_default (1/4) exhausted) = 5
   \<and> \<not> t_connected (ws exhausted)
   \<and> connectionState (checkInterval cfg_default CONNECTED (1/4) exhausted) = DISCONNECTED"
proof -
  have a: "shouldReconnect none_failed
      \<and> reconnectAttempts none_failed < maxReconnectAttempts cfg_default"
    by (simp add: none_failed_def init_def max_default)
  have b: "\<not> (shouldReconnect exhausted
          \<and> reconnectAttempts exhausted < maxReconnectAttempts cfg_default)"
    by (simp add: exhausted_eq max_default)
  have n: "reconnectAttempts none_failed = 0" "nextHandle none_failed = 0"
    "reconnectAttempts exhausted = 5"
    by (simp_all add: none_failed_def exhausted_eq init_def)
  have t: "\<not> t_connected (ws none_failed)" "\<not> t_connected (ws exhausted)"
    by (simp_all add: none_failed_def exhausted_eq init_def transport0_def)
  have c: "connectionState (scheduleReconnect cfg_default (1/4) none_failed) = RECONNECTING
      \<and> reconnectAttempts (scheduleReconnect cfg_default (1/4) none_failed)
          = reconnectAttempts none_failed + 1
      \<and> reconnectTimeout (scheduleReconnect cfg_default (1/4) none_failed)
          = Some (nextHandle none_failed)"
    using a retry_decision [of cfg_default "1/4" none_failed CONNECTING] by blast
  have c': "connectionState (checkInterval cfg_default CONNECTING (1/4) none_failed)
      = RECONNECTING"
    using a t(1) retry_decision [of cfg_default "1/4" none_failed CONNECTING] by blast
  have d: "connectionState (scheduleReconnect cfg_default (1/4) exhausted) = DISCONNECTED
      \<and> reconnectTimeout (scheduleReconnect cfg_default (1/4) exhausted) = None
      \<and> reconnectAttempts (scheduleReconnect cfg_default (1/4) exhausted)
          = reconnectAttempts exhausted"
    using b retry_decision [of cfg_default "1/4" exhausted CONNECTED] by blast
  have d': "connectionState (checkInterval cfg_default CONNECTED (1/4) exhausted)
      = DISCONNECTED"
    using b t(2) retry_decision [of cfg_default "1/4" exhausted CONNECTED] by blast
  show ?thesis
    using a b c c' d d' t by (simp add: n)
qed

lemma at_most_one:
  assumes "distinct (map f xs)" and "\<forall>x \<in> set xs. f x = c"
  shows "length xs \<le> 1"
proof (cases xs)
  case Nil
  then show ?thesis by simp
next
  case (Cons x ys)
  show ?thesis
  proof (cases ys)
    case Nil
    with Cons show ?thesis by simp
  next
    case (Cons y zs)
    with \<open>xs = x # ys\<close> assms show ?thesis by auto
  qed
qed

lemma retry_at_most_one:
  assumes "timers_ok s"
  shows "length (filter (\<lambda>t. fst (snd t) = RetryConnect) (timeouts s)) \<le> 1"
proof (cases "reconnectTimeout s")
  case None
  with assms have "filter (\<lambda>t. fst (snd t) = RetryConnect) (timeouts s) = []"
    by (auto simp: timers_ok_def filter_empty_conv)
  then show ?thesis by simp
next
  case (Some h)
  have d: "distinct (map fst (filter (\<lambda>t. fst (snd t) = RetryConnect) (timeouts s)))"
    using assms by (simp add: timers_ok_def distinct_map_filter)
  have "\<forall>t \<in> set (filter (\<lambda>t. fst (snd t) = RetryConnect) (timeouts s)). fst t = h"
    using assms Some by (auto simp: timers_ok_def)
  with d show ?thesis
    by (rule at_most_one)
qed

lemma cancel_filter_retry:
  assumes "timers_ok s"
  shows "filter (\<lambda>t. fst (snd t) = RetryConnect) (timeouts (cancelReconnectTimeout s)) = []"
  using cancel_no_retry [OF assms] by (auto simp: filter_empty_conv)

lemma cancel_stale:
  assumes "\<forall>t \<in> set (timeouts s). reconnectTimeout s \<noteq> Some (fst t)"
  shows "timeouts (cancelReconnectTimeout s) = timeouts s"
  using assms by (auto simp: cancel_timeouts filter_id_conv split: option.splits)

text \<open>
  C9. In every reachable state at most one retry timer is pending, and it is the one whose
  handle \<^verbatim>\<open>reconnectTimeoutRef\<close> holds. After \<^verbatim>\<open>scheduleReconnect\<close> the only pending retry
  timer is the new one, under a handle no pending timer had: an old one was cancelled
  first. After the cancelling block no retry timer is pending; the block changes nothing
  when the ref is empty, and leaves the timer table alone when the ref holds the handle of
  a timer that is no longer pending.
\<close>

theorem one_pending_reconnect_timer:
  assumes "reachable cfg s"
  shows "length (filter (\<lambda>t. fst (snd t) = RetryConnect) (timeouts s)) \<le> 1
     \<and> (\<forall>t \<in> set (timeouts s). fst (snd t) = RetryConnect \<longrightarrow> reconnectTimeout s = Some (fst t))
     \<and> filter (\<lambda>t. fst (snd t) = RetryConnect) (timeouts (scheduleReconnect cfg rnd s))
         = (if shouldReconnect s \<and> reconnectAttempts s < maxReconnectAttempts cfg
            then [(nextHandle s, RetryConnect,
                   min (1000 * 2 ^ reconnectAttempts s + rnd * 1000) 30000)]
            else [])
     \<and> (\<forall>t \<in> set (timeouts s). fst t \<noteq> nextHandle s)
     \<and> filter (\<lambda>t. fst (snd t) = RetryConnect) (timeouts (cancelReconnectTimeout s)) = []
     \<and> (reconnectTimeout s = None \<longrightarrow> cancelReconnectTimeout s = s)
     \<and> ((\<forall>t \<in> set (timeouts s). reconnectTimeout s \<noteq> Some (fst t)) \<longrightarrow>
           timeouts (cancelReconnectTimeout s) = timeouts s)"
proof -
  have t: "timers_ok s"
    using reachable_hook_inv [OF assms] by (simp add: hook_inv_def)
  have one: "length (filter (\<lambda>t. fst (snd t) = RetryConnect) (timeouts s)) \<le> 1"
    using t by (rule retry_at_most_one)
  have held: "\<forall>t \<in> set (timeouts s). fst (snd t) = RetryConnect \<longrightarrow>
      reconnectTimeout s = Some (fst t)"
    using t by (simp add: timers_ok_def)
  have fresh: "\<forall>t \<in> set (timeouts s). fst t \<noteq> nextHandle s"
    using t by (auto simp: timers_ok_def)
  have c: "filter (\<lambda>t. fst (snd t) = RetryConnect) (timeouts (cancelReconnectTimeout s)) = []"
    using t by (rule cancel_filter_retry)
  have sched: "filter (\<lambda>t. fst (snd t) = RetryConnect) (timeouts (scheduleReconnect cfg rnd s))
         = (if shouldReconnect s \<and> reconnectAttempts s < maxReconnectAttempts cfg
            then [(nextHandle s, RetryConnect,
                   min (1000 * 2 ^ reconnectAttempts s + rnd * 1000) 30000)]
            else [])"
  proof (cases "shouldReconnect s \<and> reconnectAttempts s < maxReconnectAttempts cfg")
    case True
    then have e: "shouldReconnect s" "reconnectAttempts s < maxReconnectAttempts cfg"
      by simp_all
    show ?thesis
      using True by (simp add: scheduleReconnect_arm [OF e] c)
  next
    case False
    then show ?thesis
      by (simp add: scheduleReconnect_refuse [OF False] c)
  qed
  have noop: "reconnectTimeout s = None \<longrightarrow> cancelReconnectTimeout s = s"
    by (simp add: cancelReconnectTimeout_def)
  have stale: "(\<forall>t \<in> set (timeouts s). reconnectTimeout s \<noteq> Some (fst t)) \<longrightarrow>
           timeouts (cancelReconnectTimeout s) = timeouts s"
    using cancel_stale by blast
  show ?thesis
    using one held sched fresh c noop stale by blast
qed

theorem one_pending_reconnect_timer_witness:
  "reachable cfg_default retrying
   \<and> timeouts retrying = [(1, RetryConnect, 1250)] \<and> reconnectTimeout retrying = Some 1
   \<and> filter (\<lambda>t. fst (snd t) = RetryConnect)
        (timeouts (scheduleReconnect cfg_default (1/2) retrying)) = [(2, RetryConnect, 2500)]
   \<and> filter (\<lambda>t. fst (snd t) = RetryConnect) (timeouts (cancelReconnectTimeout retrying)) = []
   \<and> reachable cfg_default listening \<and> reconnectTimeout listening = None
   \<and> cancelReconnectTimeout listening = listening
   \<and> reachable cfg_default fired \<and> reconnectTimeout fired = Some 1 \<and> timeouts fired = []
   \<and> timeouts (cancelReconnectTimeout fired) = timeouts fired"
proof -
  have r: "reachable cfg_default retrying"
    unfolding retrying_def by (rule reachable_run)
  have r2: "reachable cfg_default listening"
    unfolding listening_def by (rule reachable_run)
  have r3: "reachable cfg_default fired"
    unfolding fired_def by (rule reachable_run)
  have v: "timeouts retrying = [(1, RetryConnect, 1250)]" "reconnectTimeout retrying = Some 1"
    "shouldReconnect retrying" "reconnectAttempts retrying = 1" "nextHandle retrying = 2"
    by (simp_all add: retrying_eq)
  have v2: "reconnectTimeout listening = None"
    by (simp add: listening_eq)
  have v3: "reconnectTimeout fired = Some 1" "timeouts fired = []"
    by (simp_all add: fired_eq)
  have a: "filter (\<lambda>t. fst (snd t) = RetryConnect)
        (timeouts (scheduleReconnect cfg_default (1/2) retrying)) = [(2, RetryConnect, 2500)]
      \<and> filter (\<lambda>t. fst (snd t) = RetryConnect)
           (timeouts (cancelReconnectTimeout retrying)) = []"
    using v one_pending_reconnect_timer [OF r, of "1/2"] by (simp add: max_default)
  have b: "cancelReconnectTimeout listening = listening"
    using v2 one_pending_reconnect_timer [OF r2, of "1/2"] by blast
  have c: "timeouts (cancelReconnectTimeout fired) = timeouts fired"
    using v3(2) one_pending_reconnect_timer [OF r3, of "1/2"] by simp
  show ?thesis
    using r r2 r3 v(1,2) v2 v3 a b c by simp
qed

subsection \<open>Inbound messages: the error tag and the routing by type\<close>

lemma foldl_deliverTo_map_snd:
  "foldl (deliverTo cfg m) s ls = foldl (deliverTo cfg m) s (map (Pair 0) (map snd ls))"
proof (induction ls arbitrary: s)
  case Nil
  show ?case by simp
next
  case (Cons l ls)
  have "deliverTo cfg m s l = deliverTo cfg m s (0, snd l)"
    by (simp add: deliverTo_def)
  then show ?case
    using Cons.IH [of "deliverTo cfg m s l"] by simp
qed

lemma emit_wanted:
  assumes "subs_ok cfg s" and "t_listeners (ws s) \<noteq> []"
  shows "emit cfg m s = foldl (deliverTo cfg m) s (map (Pair 0) (wanted cfg))"
proof -
  have "map snd (t_listeners (ws s)) = wanted cfg"
    using assms by (simp add: subs_ok_def)
  then show ?thesis
    by (simp add: emit_def foldl_deliverTo_map_snd [of cfg m s "t_listeners (ws s)"])
qed

lemma foldl_deliverTo_unmatched:
  assumes "msg_type m \<notin> set ts"
  shows "foldl (deliverTo cfg m) s (map (Pair 0) (map (\<lambda>t. (OnType t, H_handleMessage)) ts)) = s"
  using assms by (induction ts arbitrary: s) (simp_all add: deliverTo_def)

lemma emit_error_listener:
  assumes "subs_ok cfg s" and "t_listeners (ws s) \<noteq> []" and "msg_type m = ''error''"
  shows "connectionState (emit cfg m s) = DISCONNECTED \<and> \<not> isConnecting (emit cfg m s)"
  using assms(3)
  by (simp add: emit_wanted [OF assms(1,2)] wanted_def deliverTo_def)

lemma handleMessage_error:
  assumes "msg_type m = ''error''"
  shows "handleMessage cfg m s =
     s\<lparr>lastMessage := Some m,
       calls := calls s @ (if onError cfg then [CbError (message m)] else [])
                  @ (if onMessage cfg then [CbMessage m] else [])\<rparr>"
  using assms by (simp add: handleMessage_def invoke_def Let_def)

text \<open>
  C5, as stated, fails. The hook is connected and acknowledged; the transport delivers a
  message tagged \<^verbatim>\<open>'error'\<close>; the error listener that \<^verbatim>\<open>connect\<close> registered runs and the
  state is \<open>DISCONNECTED\<close>.
\<close>

theorem error_message_counterexample:
  "msg_type msg_error = ''error''
   \<and> connectionState established = CONNECTED
   \<and> connectionState (emit cfg_default msg_error established) = DISCONNECTED"
  by (simp add: established_eq emit_def deliverTo_def handleMessage_def invoke_def
      msg_error_def cfg_default_def Let_def)

text \<open>
  C5, amended. \<^verbatim>\<open>handleMessage\<close>, given a message tagged \<^verbatim>\<open>'error'\<close>, stores it as
  \<^verbatim>\<open>lastMessage\<close>, invokes \<^verbatim>\<open>onError\<close> with the carried text and then \<^verbatim>\<open>onMessage\<close> with the
  message, and changes nothing else: not the connection state, the in-flight flag or the
  counter. But when the transport delivers such a message to a subscribed hook, the error
  listener of \<^verbatim>\<open>connect\<close> runs too: the in-flight flag is cleared and the state is
  \<open>DISCONNECTED\<close>.
\<close>

theorem error_message:
  assumes "msg_type m = ''error''"
  shows "handleMessage cfg m s =
           s\<lparr>lastMessage := Some m,
             calls := calls s @ (if onError cfg then [CbError (message m)] else [])
                        @ (if onMessage cfg then [CbMessage m] else [])\<rparr>
       \<and> connectionState (handleMessage cfg m s) = connectionState s
       \<and> (reachable cfg s \<and> t_listeners (ws s) \<noteq> [] \<longrightarrow>
            connectionState (emit cfg m s) = DISCONNECTED \<and> \<not> isConnecting (emit cfg m s))"
proof -
  have "connectionState (emit cfg m s) = DISCONNECTED \<and> \<not> isConnecting (emit cfg m s)"
    if "reachable cfg s" and "t_listeners (ws s) \<noteq> []"
  proof -
    have "subs_ok cfg s"
      using reachable_hook_inv [OF that(1)] by (simp add: hook_inv_def)
    then show ?thesis
      using that(2) assms by (rule emit_error_listener)
  qed
  then show ?thesis
    by (simp add: handleMessage_error [OF assms])
qed

theorem error_message_witness:
  "msg_type msg_error = ''error''
   \<and> reachable cfg_default established \<and> t_listeners (ws established) \<noteq> []
   \<and> calls (handleMessage cfg_default msg_error established)
       = calls established @ [CbError ''rate limited'', CbMessage msg_error]
   \<and> connectionState (handleMessage cfg_default msg_error established) = CONNECTED
   \<and> connectionState (emit cfg_default msg_error established) = DISCONNECTED"
proof -
  have h: "msg_type msg_error = ''error''"
    by (simp add: msg_error_def)
  have r: "reachable cfg_default established"
    unfolding established_def by (rule reachable_run)
  have l: "t_listeners (ws established) \<noteq> []" "connectionState established = CONNECTED"
    by (simp_all add: established_eq)
  have c: "calls (handleMessage cfg_default msg_error established)
       = calls established @ [CbError ''rate limited'', CbMessage msg_error]"
    using error_message [OF h, of cfg_default established]
    by (simp add: cfg_default_def msg_error_def)
  have d: "connectionState (handleMessage cfg_default msg_error established)
             = connectionState established
       \<and> connectionState (emit cfg_default msg_error established) = DISCONNECTED"
    using r l(1) error_message [OF h, of cfg_default established] by blast
  show ?thesis
    using h r l c d by simp
qed

text \<open>
  C8. The routing by message type is the transport's, modelled in \<open>emit\<close>. In every
  reachable state: when a non-empty \<^verbatim>\<open>messageTypes\<close> is given and the tag of an inbound
  message is not in it, no callback is invoked and \<^verbatim>\<open>lastMessage\<close> is unchanged; when no
  \<^verbatim>\<open>messageTypes\<close> is given (or an empty one) and the hook is subscribed (a connect cycle
  has registered its listeners and no disconnect has removed them), \<^verbatim>\<open>lastMessage\<close> becomes
  the inbound message and \<^verbatim>\<open>onMessage\<close>, when supplied, is invoked exactly once, with that
  message.
\<close>

theorem selector_filtering:
  assumes "reachable cfg s"
  shows "(\<forall>ts. messageTypes cfg = Some ts \<and> ts \<noteq> [] \<and> msg_type m \<notin> set ts \<longrightarrow>
            calls (emit cfg m s) = calls s \<and> lastMessage (emit cfg m s) = lastMessage s)
       \<and> ((messageTypes cfg = None \<or> messageTypes cfg = Some [])
            \<and> t_listeners (ws s) \<noteq> [] \<longrightarrow>
            lastMessage (emit cfg m s) = Some m
          \<and> filter isCbMessage (calls (emit cfg m s))
              = filter isCbMessage (calls s) @ (if onMessage cfg then [CbMessage m] else []))"
proof -
  have ok: "subs_ok cfg s"
    using reachable_hook_inv [OF assms] by (simp add: hook_inv_def)
  have typed: "calls (emit cfg m s) = calls s \<and> lastMessage (emit cfg m s) = lastMessage s"
    if t: "messageTypes cfg = Some ts" "ts \<noteq> []" "msg_type m \<notin> set ts" for ts
  proof (cases "t_listeners (ws s) = []")
    case True
    then show ?thesis by (simp add: emit_def)
  next
    case False
    have w: "wanted cfg = map (\<lambda>t. (OnType t, H_handleMessage)) ts
               @ [(OnType ''error'', H_errorListener)]"
      using t(1,2) by (simp add: wanted_def)
    show ?thesis
      by (simp add: emit_wanted [OF ok False] w foldl_deliverTo_unmatched [OF t(3)]
          deliverTo_def del: map_map)
  qed
  have any: "lastMessage (emit cfg m s) = Some m
          \<and> filter isCbMessage (calls (emit cfg m s))
              = filter isCbMessage (calls s) @ (if onMessage cfg then [CbMessage m] else [])"
    if n: "messageTypes cfg = None \<or> messageTypes cfg = Some []" "t_listeners (ws s) \<noteq> []"
  proof -
    have w: "wanted cfg = [(OnAny, H_handleMessage), (OnType ''error'', H_errorListener)]"
      using n(1) by (auto simp: wanted_def)
    show ?thesis
      by (simp add: emit_wanted [OF ok n(2)] w deliverTo_def handleMessage_def invoke_def
          Let_def)
  qed
  show ?thesis
    using typed any by blast
qed

theorem selector_filtering_witness:
  "reachable cfg_snapshot listening_snapshot
   \<and> messageTypes cfg_snapshot = Some [''snapshot_update'']
   \<and> msg_type msg_corridor \<notin> set [''snapshot_update'']
   \<and> calls (emit cfg_snapshot msg_corridor listening_snapshot) = []
   \<and> lastMessage (emit cfg_snapshot msg_corridor listening_snapshot) = None
   \<and> reachable cfg_default listening
   \<and> messageTypes cfg_default = None \<and> t_listeners (ws listening) \<noteq> []
   \<and> lastMessage (emit cfg_default msg_corridor listening) = Some msg_corridor
   \<and> filter isCbMessage (calls (emit cfg_default msg_corridor listening))
       = [CbMessage msg_corridor]"
proof -
  have r1: "reachable cfg_snapshot listening_snapshot"
    unfolding listening_snapshot_def by (rule reachable_run)
  have r2: "reachable cfg_default listening"
    unfolding listening_def by (rule reachable_run)
  have h1: "messageTypes cfg_snapshot = Some [''snapshot_update'']"
      "[''snapshot_update''] \<noteq> []" "msg_type msg_corridor \<notin> set [''snapshot_update'']"
      "calls listening_snapshot = []" "lastMessage listening_snapshot = None"
    by (simp_all add: cfg_snapshot_def cfg_default_def msg_corridor_def listening_snapshot_eq)
  have h2: "messageTypes cfg_default = None" "t_listeners (ws listening) \<noteq> []"
      "calls listening = []" "onMessage cfg_default"
    by (simp_all add: cfg_default_def listening_eq)
  have c1: "calls (emit cfg_snapshot msg_corridor listening_snapshot) = calls listening_snapshot
      \<and> lastMessage (emit cfg_snapshot msg_corridor listening_snapshot)
          = lastMessage listening_snapshot"
    using h1(1,2,3) selector_filtering [OF r1, of msg_corridor] by blast
  have c2: "lastMessage (emit cfg_default msg_corridor listening) = Some msg_corridor
      \<and> filter isCbMessage (calls (emit cfg_default msg_corridor listening))
          = filter isCbMessage (calls listening)
            @ (if onMessage cfg_default then [CbMessage msg_corridor] else [])"
    using h2(1,2) selector_filtering [OF r2, of msg_corridor] by blast
  show ?thesis
    using r1 r2 h1 h2 c1 c2 by simp
qed

subsection \<open>The bound on the reconnect counter\<close>















subsection \<open>Disconnecting\<close>

text \<open>
  What \<^verbatim>\<open>disconnect()\<close> does achieve from every reachable state: no listener, no interval
  and no retry timer is left, only timeouts of \<^verbatim>\<open>reconnect\<close> can stay pending.
\<close>

lemma disconnect_clears:
  assumes "reachable cfg s"
  shows "t_listeners (ws (disconnect cfg s)) = []
     \<and> intervals (disconnect cfg s) = []
     \<and> unsubscribers (disconnect cfg s) = []
     \<and> (\<forall>t \<in> set (timeouts (disconnect cfg s)). fst (snd t) = SettleConnect)
     \<and> reconnectTimeout (disconnect cfg s) = None
     \<and> \<not> shouldReconnect (disconnect cfg s)
     \<and> \<not> t_connected (ws (disconnect cfg s))
     \<and> t_disconnectCalls (ws (disconnect cfg s)) = t_disconnectCalls (ws s) + 1
     \<and> reconnectAttempts (disconnect cfg s) = 0
     \<and> connectionState (disconnect cfg s) = DISCONNECTED
     \<and> \<not> isConnected (disconnect cfg s)
     \<and> connectionId (disconnect cfg s) = None
     \<and> calls (disconnect cfg s) = calls s @ (if onDisconnect cfg then [CbDisconnect] else [])"
proof -
  have inv: "hook_inv cfg s"
    using assms by (rule reachable_hook_inv)
  then have "subs_ok cfg s" and t: "timers_ok s"
    by (simp_all add: hook_inv_def)
  then have k: "keptListeners s = []" "keptIntervals s = []"
    by (simp_all add: subs_ok_kept)
  have "\<forall>t \<in> set (timeouts (cancelReconnectTimeout s)). fst (snd t) = SettleConnect"
    using cancel_no_retry [OF t] by blast
  then show ?thesis
    by (simp add: disconnect_eq k)
qed

text \<open>
  C4 at the state reached by mounting and calling the public \<^verbatim>\<open>connect\<close> (the
  \<^verbatim>\<open>reconnect\<close> of the hook), before its 100 ms timeout has fired. \<^verbatim>\<open>disconnect()\<close> leaves
  that timeout pending: its handle is kept nowhere. When it fires, \<^verbatim>\<open>connect()\<close> runs,
  registers listeners, calls the transport's \<^verbatim>\<open>connect\<close> and starts an interval, although
  the hook was disconnected and nobody asked to connect since.
\<close>

theorem disconnect_leaves_settle_timer:
  "timeouts settling = [(1, SettleConnect, 100)]
   \<and> timeouts (disconnect cfg_default settling) = [(1, SettleConnect, 100)]
   \<and> connectionState (disconnect cfg_default settling) = DISCONNECTED
   \<and> connectionState (fire cfg_default 1 DISCONNECTED False (disconnect cfg_default settling))
       = CONNECTING
   \<and> t_connectCalls (ws (disconnect cfg_default settling)) = 1
   \<and> t_connectCalls
        (ws (fire cfg_default 1 DISCONNECTED False (disconnect cfg_default settling))) = 2
   \<and> length (t_listeners
        (ws (fire cfg_default 1 DISCONNECTED False (disconnect cfg_default settling)))) = 2
   \<and> length (intervals
        (fire cfg_default 1 DISCONNECTED False (disconnect cfg_default settling))) = 1"
  by (simp add: settling_eq hook_defs fire_def disconnect_def invoke_def)

end
